theory Spec2Isabelle
  imports Main
begin

section \<open>Data of \<open>src/no-response.ts\<close>\<close>

text \<open>
  The class \<open>NoResponse\<close> drives a remote issue tracker through the octokit client. The
  embedding keeps the functions of the class under their own names. Every function that
  awaits a request takes the state of the remote service and returns a result together
  with the state after it: \<open>Inl\<close> is a thrown error (a rejected promise), \<open>Inr\<close>
  a value. The state after an error is kept, since requests already answered are not
  undone.
\<close>

text \<open>The interface \<open>Issue\<close> and the object \<open>this.config.repo\<close>.\<close>

record Repo =
  owner :: string
  repo :: string

record Issue =
  issue_number :: nat
  issue_owner :: string
  issue_repo :: string

text \<open>
  The interface \<open>LabeledEvent\<close>; \<open>label.name\<close> is the field \<open>label_name\<close>.
  \<open>created_at\<close> is declared a number: a time value in milliseconds.
\<close>

record LabeledEvent =
  created_at :: int
  event :: string
  label_name :: string

text \<open>
  Modelled from the spec: the class \<open>Config\<close> of \<open>./config\<close>, which is imported by the
  source and not part of it. The fields are the ones the spec lists for \<open>SweepConfig\<close> and
  the source reads; the optional ones are \<open>None\<close> when not configured.
\<close>

record Config =
  token :: string
  config_repo :: Repo
  responseRequiredLabel :: string
  responseRequiredColor :: string
  daysUntilClose :: int
  closeComment :: "string option"
  optionalFollowUpLabel :: "string option"
  optionalFollowUpLabelColor :: "string option"

text \<open>
  The fields of the webhook payloads that the source reads:
  \<open>IssuesEvent\<close> (\<open>action\<close>, \<open>repository.owner.login\<close>, \<open>repository.name\<close>,
  \<open>issue.number\<close>, \<open>issue.user.login\<close>, \<open>sender.login\<close>) and \<open>IssueCommentEvent\<close>
  (\<open>repository.owner.login\<close>, \<open>repository.name\<close>, \<open>issue.number\<close>,
  \<open>comment.user.login\<close>).
\<close>

record IssuesEvent =
  action :: string
  repository_owner_login :: string
  repository_name :: string
  payload_issue_number :: nat
  issue_user_login :: string
  sender_login :: string

record IssueCommentEvent =
  comment_repository_owner_login :: string
  comment_repository_name :: string
  comment_issue_number :: nat
  comment_user_login :: string

text \<open>
  Errors. \<open>Error\<close> is the one the source throws itself, \<open>RangeError\<close> is thrown by
  \<open>Date.prototype.toISOString\<close> on an invalid date, \<open>SyntaxError\<close> by \<open>JSON.parse\<close>,
  \<open>RequestError\<close> by the client with the HTTP status of the response, and
  \<open>StreamError\<close> by the scramjet stream, around the error of the callback that failed.
\<close>

datatype error = Error string | RangeError | SyntaxError | RequestError nat | StreamError error

text \<open>The process environment and the file system that \<open>readPayload\<close> reads.\<close>

datatype file_content = Json IssueCommentEvent | Malformed

record Env =
  GITHUB_EVENT_PATH :: "string option"
  files :: "string \<rightharpoonup> file_content"

section \<open>The remote service\<close>

text \<open>
  The remote service is an in-memory stand-in for the REST interface: per issue the
  fields that \<open>issues.get\<close>, \<open>listLabelsOnIssue\<close> and \<open>listEvents\<close> report, per
  repository the labels with their colours, and the answer of the search index to a
  query before the page size is applied. \<open>requests\<close> is the sequence of requests received,
  oldest first. A request about an issue or a label that does not exist is answered with
  status 404, the creation of a label that exists with 422; no other request fails.
  \<open>ListEvents\<close> carries the issue, the page size and the number of the page.
\<close>

record RemoteIssue =
  user_login :: "string option"
  state :: string
  state_reason :: "string option"
  closed_by_login :: "string option"
  label_names :: "string list"
  events :: "LabeledEvent list"
  comments :: "string list"

datatype request =
    GetLabel Repo string
  | CreateLabel Repo string string
  | SearchIssuesAndPullRequests string string string nat
  | ListEvents Issue nat nat
  | ListLabelsOnIssue Issue
  | GetIssue Issue
  | RemoveLabel Issue string
  | AddLabels Issue "string list"
  | CreateComment Issue string
  | UpdateIssue Issue string "string option"

record Remote =
  issues :: "Issue \<rightharpoonup> RemoteIssue"
  repo_labels :: "(Repo \<times> string) \<rightharpoonup> string"
  search_index :: "string \<Rightarrow> string \<Rightarrow> string \<Rightarrow> nat list"
  requests :: "request list"

definition receive :: "request \<Rightarrow> Remote \<Rightarrow> Remote" where
  "receive r w = w\<lparr>requests := requests w @ [r]\<rparr>"

definition getLabel :: "Repo \<Rightarrow> string \<Rightarrow> Remote \<Rightarrow> (error + string) \<times> Remote" where
  "getLabel r name w =
     (case repo_labels w (r, name) of
        None \<Rightarrow> (Inl (RequestError 404), receive (GetLabel r name) w)
      | Some color \<Rightarrow> (Inr color, receive (GetLabel r name) w))"

definition createLabel :: "Repo \<Rightarrow> string \<Rightarrow> string \<Rightarrow> Remote \<Rightarrow> (error + unit) \<times> Remote" where
  "createLabel r name color w =
     (case repo_labels w (r, name) of
        Some c \<Rightarrow> (Inl (RequestError 422), receive (CreateLabel r name color) w)
      | None \<Rightarrow>
          (Inr (), (receive (CreateLabel r name color) w)
                     \<lparr>repo_labels := (repo_labels w)((r, name) \<mapsto> color)\<rparr>))"

definition issuesAndPullRequests ::
  "string \<Rightarrow> string \<Rightarrow> string \<Rightarrow> nat \<Rightarrow> Remote \<Rightarrow> (error + nat list) \<times> Remote" where
  "issuesAndPullRequests q sort_field order per_page w =
     (Inr (take per_page (search_index w q sort_field order)),
      receive (SearchIssuesAndPullRequests q sort_field order per_page) w)"

text \<open>
  One page of the history of an issue, oldest event first: the events of the page, and
  whether the response has a link to a next page. Pages are counted from 1.
\<close>

definition listEvents ::
  "Issue \<Rightarrow> nat \<Rightarrow> nat \<Rightarrow> Remote \<Rightarrow> (error + LabeledEvent list \<times> bool) \<times> Remote" where
  "listEvents i per_page page w =
     (case issues w i of
        None \<Rightarrow> (Inl (RequestError 404), receive (ListEvents i per_page page) w)
      | Some ri \<Rightarrow>
          (Inr (take per_page (drop ((page - 1) * per_page) (events ri)),
                0 < per_page \<and> page * per_page < length (events ri)),
           receive (ListEvents i per_page page) w))"

definition listLabelsOnIssue :: "Issue \<Rightarrow> Remote \<Rightarrow> (error + string list) \<times> Remote" where
  "listLabelsOnIssue i w =
     (case issues w i of
        None \<Rightarrow> (Inl (RequestError 404), receive (ListLabelsOnIssue i) w)
      | Some ri \<Rightarrow> (Inr (label_names ri), receive (ListLabelsOnIssue i) w))"

definition issues_get :: "Issue \<Rightarrow> Remote \<Rightarrow> (error + RemoteIssue) \<times> Remote" where
  "issues_get i w =
     (case issues w i of
        None \<Rightarrow> (Inl (RequestError 404), receive (GetIssue i) w)
      | Some ri \<Rightarrow> (Inr ri, receive (GetIssue i) w))"

definition removeLabel :: "Issue \<Rightarrow> string \<Rightarrow> Remote \<Rightarrow> (error + unit) \<times> Remote" where
  "removeLabel i name w =
     (case issues w i of
        None \<Rightarrow> (Inl (RequestError 404), receive (RemoveLabel i name) w)
      | Some ri \<Rightarrow>
          if name \<in> set (label_names ri)
          then (Inr (), (receive (RemoveLabel i name) w)
                  \<lparr>issues := (issues w)(i \<mapsto> ri\<lparr>label_names := removeAll name (label_names ri)\<rparr>)\<rparr>)
          else (Inl (RequestError 404), receive (RemoveLabel i name) w))"

definition addLabels :: "Issue \<Rightarrow> string list \<Rightarrow> Remote \<Rightarrow> (error + unit) \<times> Remote" where
  "addLabels i names w =
     (case issues w i of
        None \<Rightarrow> (Inl (RequestError 404), receive (AddLabels i names) w)
      | Some ri \<Rightarrow>
          (Inr (), (receive (AddLabels i names) w)
             \<lparr>issues := (issues w)(i \<mapsto> ri\<lparr>label_names :=
                  label_names ri @ filter (\<lambda>n. n \<notin> set (label_names ri)) (remdups names)\<rparr>)\<rparr>))"

definition createComment :: "Issue \<Rightarrow> string \<Rightarrow> Remote \<Rightarrow> (error + unit) \<times> Remote" where
  "createComment i body w =
     (case issues w i of
        None \<Rightarrow> (Inl (RequestError 404), receive (CreateComment i body) w)
      | Some ri \<Rightarrow>
          (Inr (), (receive (CreateComment i body) w)
             \<lparr>issues := (issues w)(i \<mapsto> ri\<lparr>comments := comments ri @ [body]\<rparr>)\<rparr>))"

definition updateIssue ::
  "Issue \<Rightarrow> string \<Rightarrow> string option \<Rightarrow> Remote \<Rightarrow> (error + unit) \<times> Remote" where
  "updateIssue i st reason w =
     (case issues w i of
        None \<Rightarrow> (Inl (RequestError 404), receive (UpdateIssue i st reason) w)
      | Some ri \<Rightarrow>
          (Inr (), (receive (UpdateIssue i st reason) w)
             \<lparr>issues := (issues w)(i \<mapsto> ri\<lparr>state := st, state_reason := reason\<rparr>)\<rparr>))"

section \<open>JavaScript values\<close>

text \<open>
  A string option is falsy when it is undefined or the empty string.
\<close>

definition truthy :: "string option \<Rightarrow> bool" where
  "truthy s = (case s of None \<Rightarrow> False | Some v \<Rightarrow> v \<noteq> [])"

text \<open>
  A \<open>Date\<close> holds a time value or is invalid (\<open>None\<close>). \<open>new Date(tv)\<close> clips: a time
  value beyond 8.64e15 milliseconds on either side of the epoch gives the invalid date. The
  comparison \<open><\<close> of two dates compares their time values and is false when one is
  invalid; \<open>toISOString\<close> throws a \<open>RangeError\<close> on the invalid date. Numbers are
  integers here: the time values of valid dates and the products of an integral number of
  days with 86400000 are exact in double precision.
\<close>

definition valid_time :: "int \<Rightarrow> bool" where
  "valid_time tv = (\<bar>tv\<bar> \<le> 8640000000000000)"

definition new_Date :: "int \<Rightarrow> int option" where
  "new_Date tv = (if valid_time tv then Some tv else None)"

definition date_less :: "int option \<Rightarrow> int option \<Rightarrow> bool" where
  "date_less a b = (case a of None \<Rightarrow> False | Some x \<Rightarrow> (case b of None \<Rightarrow> False | Some y \<Rightarrow> x < y))"

definition toISOString :: "int option \<Rightarrow> error + int" where
  "toISOString d = (case d of None \<Rightarrow> Inl RangeError | Some tv \<Rightarrow> Inr tv)"

section \<open>The functions of \<open>NoResponse\<close>\<close>

text \<open>\<open>since\<close>, with the clock reading \<open>new Date().getTime()\<close> as the argument \<open>now\<close>.\<close>

definition since :: "int \<Rightarrow> int \<Rightarrow> int option" where
  "since now days = (let ttl = days * 24 * 60 * 60 * 1000 in new_Date (now - ttl))"

definition readPayload :: "Env \<Rightarrow> error + IssueCommentEvent" where
  "readPayload env =
     (if \<not> truthy (GITHUB_EVENT_PATH env) then Inl (Error ''GITHUB_EVENT_PATH is not defined'')
      else case files env (the (GITHUB_EVENT_PATH env)) of
             None \<Rightarrow> Inl (Error ''ENOENT'')
           | Some Malformed \<Rightarrow> Inl SyntaxError
           | Some (Json payload) \<Rightarrow> Inr payload)"

definition hasResponseRequiredLabel :: "Config \<Rightarrow> Issue \<Rightarrow> Remote \<Rightarrow> (error + bool) \<times> Remote" where
  "hasResponseRequiredLabel cfg i w =
     (case listLabelsOnIssue i w of
        (Inl e, w1) \<Rightarrow> (Inl e, w1)
      | (Inr labels, w1) \<Rightarrow> (Inr (responseRequiredLabel cfg \<in> set labels), w1))"

text \<open>
  \<open>ensureLabelExists\<close> catches the error of \<open>getLabel\<close> and sends \<open>createLabel\<close> without
  awaiting it: the request is received, its outcome is dropped.
\<close>

definition ensureLabelExists :: "Config \<Rightarrow> string \<Rightarrow> string \<Rightarrow> Remote \<Rightarrow> (error + unit) \<times> Remote" where
  "ensureLabelExists cfg name color w =
     (case getLabel (config_repo cfg) name w of
        (Inr c, w1) \<Rightarrow> (Inr (), w1)
      | (Inl e, w1) \<Rightarrow> (Inr (), snd (createLabel (config_repo cfg) name color w1)))"

text \<open>
  \<open>octokit.paginate\<close>, from the page \<open>page\<close> on: it requests the page, and the next one
  as long as the response links to one, and returns the events of all of them.
\<close>

function paginate ::
  "Issue \<Rightarrow> nat \<Rightarrow> nat \<Rightarrow> Remote \<Rightarrow> (error + LabeledEvent list) \<times> Remote" where
  "paginate i per_page page w =
     (case listEvents i per_page page w of
        (Inl e, w1) \<Rightarrow> (Inl e, w1)
      | (Inr (data, has_next), w1) \<Rightarrow>
          if has_next
          then (case paginate i per_page (Suc page) w1 of
                  (Inl e, w2) \<Rightarrow> (Inl e, w2)
                | (Inr rest, w2) \<Rightarrow> (Inr (data @ rest), w2))
          else (Inr data, w1))"
  by pat_completeness auto
termination
proof (relation "measure (\<lambda>(i, per_page, page, w).
          case issues w i of None \<Rightarrow> 0 | Some ri \<Rightarrow> length (events ri) - page * per_page)")
  show "wf (measure (\<lambda>(i, per_page, page, w).
          case issues w i of None \<Rightarrow> 0 | Some ri \<Rightarrow> length (events ri) - page * per_page))"
    by simp
next
  fix i :: Issue and per_page page :: nat and w y :: Remote
    and x :: "error + LabeledEvent list \<times> bool" and b :: "LabeledEvent list \<times> bool"
    and xa :: "LabeledEvent list" and ya :: bool
  assume r: "(x, y) = listEvents i per_page page w" and x: "x = Inr b" and b: "(xa, ya) = b"
    and ya: ya
  from r x obtain ri where ri: "issues w i = Some ri"
    by (cases "issues w i") (auto simp add: listEvents_def)
  from r x b ya ri have next_page: "0 < per_page" "page * per_page < length (events ri)"
    and y: "y = receive (ListEvents i per_page page) w"
    by (auto simp add: listEvents_def)
  have "issues y i = Some ri" using ri y by (simp add: receive_def)
  moreover have "length (events ri) - Suc page * per_page < length (events ri) - page * per_page"
    using next_page by simp
  ultimately show "((i, per_page, Suc page, y), i, per_page, page, w)
           \<in> measure (\<lambda>(i, per_page, page, w).
          case issues w i of None \<Rightarrow> 0 | Some ri \<Rightarrow> length (events ri) - page * per_page)"
    using ri by simp
qed

declare paginate.simps [simp del]

text \<open>
  \<open>findLastLabeledEvent\<close> awaits \<open>issues.listEvents\<close> and hands the response to
  \<open>octokit.paginate\<close>, which requests the address of that response again and then follows
  the links: the first page is requested twice, and the events searched are those that
  \<open>paginate\<close> returns.
\<close>

definition findLastLabeledEvent ::
  "Config \<Rightarrow> Issue \<Rightarrow> Remote \<Rightarrow> (error + LabeledEvent option) \<times> Remote" where
  "findLastLabeledEvent cfg i w =
     (case listEvents i 100 1 w of
        (Inl e, w1) \<Rightarrow> (Inl e, w1)
      | (Inr response, w1) \<Rightarrow>
          (case paginate i 100 1 w1 of
             (Inl e, w2) \<Rightarrow> (Inl e, w2)
           | (Inr evs, w2) \<Rightarrow>
               (Inr (find (\<lambda>ev. event ev = ''labeled'' \<and> label_name ev = responseRequiredLabel cfg)
                       (rev evs)), w2)))"

definition close :: "Config \<Rightarrow> Issue \<Rightarrow> Remote \<Rightarrow> (error + unit) \<times> Remote" where
  "close cfg i w =
     (if truthy (closeComment cfg)
      then case createComment i (the (closeComment cfg)) w of
             (Inl e, w1) \<Rightarrow> (Inl e, w1)
           | (Inr u, w1) \<Rightarrow> updateIssue i ''closed'' (Some ''inactivity'') w1
      else updateIssue i ''closed'' (Some ''inactivity'') w)"

text \<open>
  The callback given to \<open>filter\<close> in \<open>getCloseableIssues\<close>, for the search hit with
  number \<open>n\<close>. The argument of \<open>core.debug\<close> is built before the comparison is returned,
  so both calls of \<open>toISOString\<close> are made.
\<close>

definition closeable :: "Config \<Rightarrow> int option \<Rightarrow> nat \<Rightarrow> Remote \<Rightarrow> (error + bool) \<times> Remote" where
  "closeable cfg labeledEarlierThan n w =
     (case findLastLabeledEvent cfg
             \<lparr>issue_number = n, issue_owner = owner (config_repo cfg),
              issue_repo = repo (config_repo cfg)\<rparr> w of
        (Inl e, w1) \<Rightarrow> (Inl e, w1)
      | (Inr None, w1) \<Rightarrow> (Inr False, w1)
      | (Inr (Some ev), w1) \<Rightarrow>
          (let creationDate = new_Date (created_at ev) in
           case toISOString creationDate of
             Inl e \<Rightarrow> (Inl e, w1)
           | Inr s1 \<Rightarrow>
               (case toISOString labeledEarlierThan of
                  Inl e \<Rightarrow> (Inl e, w1)
                | Inr s2 \<Rightarrow> (Inr (date_less creationDate labeledEarlierThan), w1))))"

text \<open>
  The stream filter of scramjet. The callbacks run concurrently, so the callback of every
  item is started and sends its requests, also after another one has failed; the stream
  keeps the order of the items. A failed callback makes \<open>toArray\<close> reject with a
  \<open>StreamError\<close> around the error of the callback. Here the requests of one callback are
  recorded together, in the order of the items, and of several failures the one of the
  earliest item is reported.
\<close>

fun filter_closeable ::
  "Config \<Rightarrow> int option \<Rightarrow> nat list \<Rightarrow> Remote \<Rightarrow> (error + nat list) \<times> Remote" where
  "filter_closeable cfg d [] w = (Inr [], w)"
| "filter_closeable cfg d (n # ns) w =
     (case closeable cfg d n w of
        (r, w1) \<Rightarrow>
          (case filter_closeable cfg d ns w1 of
             (rs, w2) \<Rightarrow>
               (case r of
                  Inl e \<Rightarrow> (Inl (StreamError e), w2)
                | Inr keep \<Rightarrow>
                    (case rs of
                       Inl e' \<Rightarrow> (Inl e', w2)
                     | Inr rest \<Rightarrow> (Inr (if keep then n # rest else rest), w2)))))"

definition getCloseableIssues :: "Config \<Rightarrow> int \<Rightarrow> Remote \<Rightarrow> (error + nat list) \<times> Remote" where
  "getCloseableIssues cfg now w =
     (let q = ''repo:'' @ owner (config_repo cfg) @ ''/'' @ repo (config_repo cfg)
                @ '' is:issue is:open label:\"'' @ responseRequiredLabel cfg @ ''\"'';
          labeledEarlierThan = since now (daysUntilClose cfg)
      in case issuesAndPullRequests q ''updated'' ''asc'' 30 w of
           (Inl e, w1) \<Rightarrow> (Inl e, w1)
         | (Inr items, w1) \<Rightarrow> filter_closeable cfg labeledEarlierThan items w1)"

text \<open>
  \<open>sweep\<close> calls \<open>close\<close> on every closeable issue without awaiting it. Each call runs
  up to its first \<open>await\<close>, that is, it sends its first request, and the loop goes on to the
  next issue; the calls resume after the loop, when their responses arrive, and an error of
  one of them reaches neither the others nor the caller. \<open>close_start\<close> is \<open>close\<close> up to
  its first request and \<open>close_resume\<close> the rest of it, given the outcome of that request.
  The responses are taken to arrive in the order of the requests.
\<close>

definition close_start :: "Config \<Rightarrow> Issue \<Rightarrow> Remote \<Rightarrow> (error + unit) \<times> Remote" where
  "close_start cfg i w =
     (if truthy (closeComment cfg)
      then createComment i (the (closeComment cfg)) w
      else updateIssue i ''closed'' (Some ''inactivity'') w)"

definition close_resume ::
  "Config \<Rightarrow> Issue \<Rightarrow> error + unit \<Rightarrow> Remote \<Rightarrow> (error + unit) \<times> Remote" where
  "close_resume cfg i r w =
     (if truthy (closeComment cfg)
      then case r of
             Inl e \<Rightarrow> (Inl e, w)
           | Inr u \<Rightarrow> updateIssue i ''closed'' (Some ''inactivity'') w
      else (r, w))"

fun start_closes ::
  "Config \<Rightarrow> Issue list \<Rightarrow> Remote \<Rightarrow> (Issue \<times> (error + unit)) list \<times> Remote" where
  "start_closes cfg [] w = ([], w)"
| "start_closes cfg (i # rest) w =
     (case close_start cfg i w of
        (r, w1) \<Rightarrow>
          (case start_closes cfg rest w1 of
             (pending, w2) \<Rightarrow> ((i, r) # pending, w2)))"

fun resume_closes :: "Config \<Rightarrow> (Issue \<times> (error + unit)) list \<Rightarrow> Remote \<Rightarrow> Remote" where
  "resume_closes cfg [] w = w"
| "resume_closes cfg ((i, r) # pending) w = resume_closes cfg pending (snd (close_resume cfg i r w))"

definition sweep :: "Config \<Rightarrow> int \<Rightarrow> Remote \<Rightarrow> (error + unit) \<times> Remote" where
  "sweep cfg now w =
     (case ensureLabelExists cfg (responseRequiredLabel cfg) (responseRequiredColor cfg) w of
        (Inl e, w1) \<Rightarrow> (Inl e, w1)
      | (Inr u, w1) \<Rightarrow>
          (case getCloseableIssues cfg now w1 of
             (Inl e, w2) \<Rightarrow> (Inl e, w2)
           | (Inr found, w2) \<Rightarrow>
               (case start_closes cfg
                       (map (\<lambda>n. \<lparr>issue_number = n, issue_owner = owner (config_repo cfg),
                                    issue_repo = repo (config_repo cfg)\<rparr>) found) w2 of
                  (pending, w3) \<Rightarrow> (Inr (), resume_closes cfg pending w3))))"

text \<open>\<open>removeLabels\<close>, with \<open>github.context.payload\<close> as the argument \<open>payload\<close>.\<close>

definition removeLabels :: "Config \<Rightarrow> IssuesEvent \<Rightarrow> Remote \<Rightarrow> (error + unit) \<times> Remote" where
  "removeLabels cfg payload w =
     (if \<not> truthy (optionalFollowUpLabel cfg) then (Inr (), w)
      else if action payload \<noteq> ''closed'' then (Inr (), w)
      else
        let i = \<lparr>issue_number = payload_issue_number payload,
                 issue_owner = repository_owner_login payload,
                 issue_repo = repository_name payload\<rparr>
        in if action payload = ''closed'' \<and> issue_user_login payload = sender_login payload
           then case listLabelsOnIssue i w of
                  (Inl e, w1) \<Rightarrow> (Inl e, w1)
                | (Inr plainLabels, w1) \<Rightarrow>
                    (case (if responseRequiredLabel cfg \<in> set plainLabels
                           then removeLabel i (responseRequiredLabel cfg) w1
                           else (Inr (), w1)) of
                       (Inl e, w2) \<Rightarrow> (Inl e, w2)
                     | (Inr u, w2) \<Rightarrow>
                         if the (optionalFollowUpLabel cfg) \<in> set plainLabels
                         then removeLabel i (the (optionalFollowUpLabel cfg)) w2
                         else (Inr (), w2))
           else (Inr (), w))"

text \<open>
  \<open>unmark\<close>. The last request, \<open>issues.update\<close>, is sent without being awaited: it is
  received, its outcome is dropped.
\<close>

definition unmark :: "Config \<Rightarrow> Env \<Rightarrow> Remote \<Rightarrow> (error + unit) \<times> Remote" where
  "unmark cfg env w =
     (case readPayload env of
        Inl e \<Rightarrow> (Inl e, w)
      | Inr payload \<Rightarrow>
          let i = \<lparr>issue_number = comment_issue_number payload,
                   issue_owner = comment_repository_owner_login payload,
                   issue_repo = comment_repository_name payload\<rparr>
          in case issues_get i w of
               (Inl e, w1) \<Rightarrow> (Inl e, w1)
             | (Inr issueInfo, w1) \<Rightarrow>
                 (case hasResponseRequiredLabel cfg i w1 of
                    (Inl e, w2) \<Rightarrow> (Inl e, w2)
                  | (Inr isMarked, w2) \<Rightarrow>
                      if isMarked \<and> user_login issueInfo = Some (comment_user_login payload)
                      then
                        (case removeLabel i (responseRequiredLabel cfg) w2 of
                           (Inl e, w3) \<Rightarrow> (Inl e, w3)
                         | (Inr u, w3) \<Rightarrow>
                             (case (if truthy (optionalFollowUpLabel cfg)
                                    then (case ensureLabelExists cfg (the (optionalFollowUpLabel cfg))
                                                 (if truthy (optionalFollowUpLabelColor cfg)
                                                  then the (optionalFollowUpLabelColor cfg)
                                                  else ''ffffff'') w3 of
                                            (Inl e, w4) \<Rightarrow> (Inl e, w4)
                                          | (Inr u', w4) \<Rightarrow>
                                              addLabels i [the (optionalFollowUpLabel cfg)] w4)
                                    else (Inr (), w3)) of
                                (Inl e, w5) \<Rightarrow> (Inl e, w5)
                              | (Inr u'', w5) \<Rightarrow>
                                  if state issueInfo = ''closed''
                                     \<and> user_login issueInfo \<noteq> closed_by_login issueInfo
                                  then (Inr (), snd (updateIssue i ''open'' None w5))
                                  else (Inr (), w5)))
                      else (Inr (), w2)))"

section \<open>Requests sent by a run\<close>

text \<open>
  The remote service only ever appends to \<open>requests\<close>, so the requests that a run sends
  are those after the ones received before it started.
\<close>

definition sent :: "Remote \<Rightarrow> Remote \<Rightarrow> request list" where
  "sent w w' = drop (length (requests w)) (requests w')"

definition is_search :: "request \<Rightarrow> bool" where
  "is_search r = (case r of SearchIssuesAndPullRequests q s ord p \<Rightarrow> True | _ \<Rightarrow> False)"

text \<open>The requests of \<open>close\<close>: a comment or an update, on one of the issues \<open>I\<close>.\<close>

definition closes :: "Issue set \<Rightarrow> request \<Rightarrow> bool" where
  "closes I r =
     (case r of CreateComment i body \<Rightarrow> i \<in> I | UpdateIssue i st reason \<Rightarrow> i \<in> I | _ \<Rightarrow> False)"

section \<open>The steps of a qualifying \<open>unmark\<close>\<close>

text \<open>
  Names for the two conditional steps of \<open>unmark\<close> after the removal of the label:
  the follow-up label (\<open>ensureLabelExists\<close>, then \<open>addLabels\<close>) and the reopening.
  They are the state parts of the corresponding branches of \<open>unmark\<close>, used to
  state what a run leaves behind.
\<close>

definition followUp :: "Config \<Rightarrow> Issue \<Rightarrow> Remote \<Rightarrow> Remote" where
  "followUp cfg i w =
     (if truthy (optionalFollowUpLabel cfg)
      then snd (addLabels i [the (optionalFollowUpLabel cfg)]
             (snd (ensureLabelExists cfg (the (optionalFollowUpLabel cfg))
                (if truthy (optionalFollowUpLabelColor cfg)
                 then the (optionalFollowUpLabelColor cfg) else ''ffffff'') w)))
      else w)"

definition reopen :: "RemoteIssue \<Rightarrow> Issue \<Rightarrow> Remote \<Rightarrow> Remote" where
  "reopen issueInfo i w =
     (if state issueInfo = ''closed'' \<and> user_login issueInfo \<noteq> closed_by_login issueInfo
      then snd (updateIssue i ''open'' None w) else w)"

section \<open>Example inputs\<close>

text \<open>
  One repository with one issue, number 7, opened by \<open>ann\<close>, carrying the label
  \<open>needs-info\<close> since the time value 1700000000000; a configuration with a follow-up
  label without a colour; a comment of \<open>ann\<close> on the issue; the closing of the issue by
  \<open>ann\<close>.
\<close>

definition example_repo :: Repo where
  "example_repo = \<lparr>owner = ''o'', repo = ''r''\<rparr>"

definition example_cfg :: Config where
  "example_cfg =
     \<lparr>token = ''t'', config_repo = example_repo, responseRequiredLabel = ''needs-info'',
      responseRequiredColor = ''ffffff'', daysUntilClose = 14, closeComment = Some ''bye'',
      optionalFollowUpLabel = Some ''follow-up'', optionalFollowUpLabelColor = None\<rparr>"

definition example_issue :: Issue where
  "example_issue = \<lparr>issue_number = 7, issue_owner = ''o'', issue_repo = ''r''\<rparr>"

definition example_info :: RemoteIssue where
  "example_info =
     \<lparr>user_login = Some ''ann'', state = ''open'', state_reason = None, closed_by_login = None,
      label_names = [''bug'', ''needs-info''],
      events = [\<lparr>created_at = 1700000000000, event = ''labeled'', label_name = ''needs-info''\<rparr>],
      comments = []\<rparr>"

definition example_remote :: Remote where
  "example_remote =
     \<lparr>issues = [example_issue \<mapsto> example_info],
      repo_labels = [(example_repo, ''needs-info'') \<mapsto> ''ffffff''],
      search_index = (\<lambda>q s ord. [7]),
      requests = []\<rparr>"

definition example_remote_closed :: Remote where
  "example_remote_closed =
     example_remote\<lparr>issues := [example_issue \<mapsto>
        example_info\<lparr>state := ''closed'', state_reason := Some ''inactivity'',
                      closed_by_login := Some ''bot''\<rparr>]\<rparr>"

definition example_comment :: IssueCommentEvent where
  "example_comment =
     \<lparr>comment_repository_owner_login = ''o'', comment_repository_name = ''r'',
      comment_issue_number = 7, comment_user_login = ''ann''\<rparr>"

definition example_env :: Env where
  "example_env = \<lparr>GITHUB_EVENT_PATH = Some ''e.json'', files = [''e.json'' \<mapsto> Json example_comment]\<rparr>"

definition example_closed :: IssuesEvent where
  "example_closed =
     \<lparr>action = ''closed'', repository_owner_login = ''o'', repository_name = ''r'',
      payload_issue_number = 7, issue_user_login = ''ann'', sender_login = ''ann''\<rparr>"

section \<open>The remote service: basic facts\<close>

lemma requests_receive: "requests (receive r w) = requests w @ [r]"
  and issues_receive: "issues (receive r w) = issues w"
  and repo_labels_receive: "repo_labels (receive r w) = repo_labels w"
  and search_index_receive: "search_index (receive r w) = search_index w"
  by (simp_all add: receive_def)

lemmas receive_simps = requests_receive issues_receive repo_labels_receive search_index_receive

lemma sent_append: "requests w' = requests w @ xs \<Longrightarrow> sent w w' = xs"
  by (simp add: sent_def)

lemma issues_get_Some: "issues w i = Some ri \<Longrightarrow> issues_get i w = (Inr ri, receive (GetIssue i) w)"
  by (simp add: issues_get_def)

lemma listLabelsOnIssue_Some:
  "issues w i = Some ri \<Longrightarrow> listLabelsOnIssue i w = (Inr (label_names ri), receive (ListLabelsOnIssue i) w)"
  by (simp add: listLabelsOnIssue_def)

lemma hasResponseRequiredLabel_Some:
  "issues w i = Some ri \<Longrightarrow>
   hasResponseRequiredLabel cfg i w =
     (Inr (responseRequiredLabel cfg \<in> set (label_names ri)), receive (ListLabelsOnIssue i) w)"
  by (simp add: hasResponseRequiredLabel_def listLabelsOnIssue_Some)

lemma unmark_not_qualifying:
  assumes "readPayload env = Inr p"
      and "i = \<lparr>issue_number = comment_issue_number p,
                 issue_owner = comment_repository_owner_login p,
                 issue_repo = comment_repository_name p\<rparr>"
      and "issues w i = Some ri"
      and "\<not> (responseRequiredLabel cfg \<in> set (label_names ri)
              \<and> user_login ri = Some (comment_user_login p))"
  shows "unmark cfg env w = (Inr (), receive (ListLabelsOnIssue i) (receive (GetIssue i) w))"
  using assms
  by (auto simp add: unmark_def Let_def issues_get_Some hasResponseRequiredLabel_Some receive_simps)

lemma removeLabel_present:
  "issues w i = Some ri \<Longrightarrow> name \<in> set (label_names ri) \<Longrightarrow>
   removeLabel i name w =
     (Inr (), (receive (RemoveLabel i name) w)
        \<lparr>issues := (issues w)(i \<mapsto> ri\<lparr>label_names := removeAll name (label_names ri)\<rparr>)\<rparr>)"
  by (simp add: removeLabel_def)

lemma addLabels_Some:
  "issues w i = Some ri \<Longrightarrow>
   addLabels i names w =
     (Inr (), (receive (AddLabels i names) w)
        \<lparr>issues := (issues w)(i \<mapsto> ri\<lparr>label_names :=
            label_names ri @ filter (\<lambda>n. n \<notin> set (label_names ri)) (remdups names)\<rparr>)\<rparr>)"
  by (simp add: addLabels_def)

lemma updateIssue_Some:
  "issues w i = Some ri \<Longrightarrow>
   updateIssue i st reason w =
     (Inr (), (receive (UpdateIssue i st reason) w)
        \<lparr>issues := (issues w)(i \<mapsto> ri\<lparr>state := st, state_reason := reason\<rparr>)\<rparr>)"
  by (simp add: updateIssue_def)

lemma createComment_Some:
  "issues w i = Some ri \<Longrightarrow>
   createComment i body w =
     (Inr (), (receive (CreateComment i body) w)
        \<lparr>issues := (issues w)(i \<mapsto> ri\<lparr>comments := comments ri @ [body]\<rparr>)\<rparr>)"
  by (simp add: createComment_def)

lemma ensureLabelExists_eq:
  "ensureLabelExists cfg name color w =
     (Inr (),
      if repo_labels w (config_repo cfg, name) = None
      then (receive (CreateLabel (config_repo cfg) name color)
              (receive (GetLabel (config_repo cfg) name) w))
             \<lparr>repo_labels := (repo_labels w)((config_repo cfg, name) \<mapsto> color)\<rparr>
      else receive (GetLabel (config_repo cfg) name) w)"
  by (simp add: ensureLabelExists_def getLabel_def createLabel_def receive_simps split: option.splits)

lemma ensure_then_add:
  assumes "issues w i = Some ri"
  shows "(case ensureLabelExists cfg name color w of
            (Inl e, w4) \<Rightarrow> (Inl e, w4)
          | (Inr u, w4) \<Rightarrow> addLabels i names w4)
         = (Inr (), snd (addLabels i names (snd (ensureLabelExists cfg name color w))))"
proof -
  have "issues (snd (ensureLabelExists cfg name color w)) i = Some ri"
    using assms by (simp add: ensureLabelExists_eq receive_simps)
  then have "fst (addLabels i names (snd (ensureLabelExists cfg name color w))) = Inr ()"
    by (simp add: addLabels_Some)
  moreover have "fst (ensureLabelExists cfg name color w) = Inr ()"
    by (simp add: ensureLabelExists_eq)
  ultimately show ?thesis
    by (cases "ensureLabelExists cfg name color w";
        cases "addLabels i names (snd (ensureLabelExists cfg name color w))") simp
qed

lemma unmark_qualifying:
  assumes p: "readPayload env = Inr p"
      and i: "i = \<lparr>issue_number = comment_issue_number p,
                 issue_owner = comment_repository_owner_login p,
                 issue_repo = comment_repository_name p\<rparr>"
      and ri: "issues w i = Some ri"
      and marked: "responseRequiredLabel cfg \<in> set (label_names ri)"
      and author: "user_login ri = Some (comment_user_login p)"
  shows "unmark cfg env w =
          (Inr (), reopen ri i (followUp cfg i
             (snd (removeLabel i (responseRequiredLabel cfg)
                (receive (ListLabelsOnIssue i) (receive (GetIssue i) w))))))"
proof -
  let ?w2 = "receive (ListLabelsOnIssue i) (receive (GetIssue i) w)"
  have ri2: "issues ?w2 i = Some ri" using ri by (simp add: receive_simps)
  obtain w3 where w3: "removeLabel i (responseRequiredLabel cfg) ?w2 = (Inr (), w3)"
    using removeLabel_present [OF ri2 marked] by simp
  have "\<exists>ri3. issues w3 i = Some ri3"
    using w3 removeLabel_present [OF ri2 marked] by auto
  then obtain ri3 where ri3: "issues w3 i = Some ri3" ..
  have fu: "(if truthy (optionalFollowUpLabel cfg)
        then (case ensureLabelExists cfg (the (optionalFollowUpLabel cfg))
                     (if truthy (optionalFollowUpLabelColor cfg)
                      then the (optionalFollowUpLabelColor cfg) else ''ffffff'') w3 of
                (Inl e, w4) \<Rightarrow> (Inl e, w4)
              | (Inr u', w4) \<Rightarrow> addLabels i [the (optionalFollowUpLabel cfg)] w4)
        else (Inr (), w3)) = (Inr (), followUp cfg i w3)"
    using ri3 by (simp add: followUp_def ensure_then_add)
  have g: "issues_get i w = (Inr ri, receive (GetIssue i) w)"
    using ri by (rule issues_get_Some)
  have "issues (receive (GetIssue i) w) i = Some ri"
    using ri by (simp add: receive_simps)
  then have h: "hasResponseRequiredLabel cfg i (receive (GetIssue i) w) = (Inr True, ?w2)"
    using marked by (simp add: hasResponseRequiredLabel_Some)
  have r: "reopen ri i (followUp cfg i w3) =
            (if state ri = ''closed'' \<and> user_login ri \<noteq> closed_by_login ri
             then snd (updateIssue i ''open'' None (followUp cfg i w3)) else followUp cfg i w3)"
    by (simp add: reopen_def)
  have "unmark cfg env w = (Inr (), reopen ri i (followUp cfg i w3))"
    unfolding unmark_def p sum.case Let_def i [symmetric] g prod.case h author w3 fu r
    by simp
  then show ?thesis using w3 by simp
qed

lemma requests_snd_removeLabel:
  "requests (snd (removeLabel i name w)) = requests w @ [RemoveLabel i name]"
  by (simp add: removeLabel_def receive_simps split: option.splits)

lemma requests_snd_addLabels:
  "requests (snd (addLabels i names w)) = requests w @ [AddLabels i names]"
  by (simp add: addLabels_def receive_simps split: option.splits)

lemma requests_snd_updateIssue:
  "requests (snd (updateIssue i st reason w)) = requests w @ [UpdateIssue i st reason]"
  by (simp add: updateIssue_def receive_simps split: option.splits)

lemma requests_snd_createComment:
  "requests (snd (createComment i body w)) = requests w @ [CreateComment i body]"
  by (simp add: createComment_def receive_simps split: option.splits)

lemma repo_labels_snd_removeLabel: "repo_labels (snd (removeLabel i name w)) = repo_labels w"
  by (simp add: removeLabel_def receive_simps split: option.splits)

lemma repo_labels_snd_addLabels: "repo_labels (snd (addLabels i names w)) = repo_labels w"
  by (simp add: addLabels_def receive_simps split: option.splits)

lemma repo_labels_snd_updateIssue: "repo_labels (snd (updateIssue i st reason w)) = repo_labels w"
  by (simp add: updateIssue_def receive_simps split: option.splits)

lemma requests_followUp:
  "requests (followUp cfg i w) =
     requests w @
       (if truthy (optionalFollowUpLabel cfg)
        then GetLabel (config_repo cfg) (the (optionalFollowUpLabel cfg))
               # (if repo_labels w (config_repo cfg, the (optionalFollowUpLabel cfg)) = None
                  then [CreateLabel (config_repo cfg) (the (optionalFollowUpLabel cfg))
                          (if truthy (optionalFollowUpLabelColor cfg)
                           then the (optionalFollowUpLabelColor cfg) else ''ffffff'')]
                  else [])
               @ [AddLabels i [the (optionalFollowUpLabel cfg)]]
        else [])"
  by (simp add: followUp_def requests_snd_addLabels ensureLabelExists_eq receive_simps)

lemma repo_labels_followUp:
  "repo_labels (followUp cfg i w) =
     (if truthy (optionalFollowUpLabel cfg)
         \<and> repo_labels w (config_repo cfg, the (optionalFollowUpLabel cfg)) = None
      then (repo_labels w)((config_repo cfg, the (optionalFollowUpLabel cfg)) \<mapsto>
              (if truthy (optionalFollowUpLabelColor cfg)
               then the (optionalFollowUpLabelColor cfg) else ''ffffff''))
      else repo_labels w)"
  by (simp add: followUp_def repo_labels_snd_addLabels ensureLabelExists_eq receive_simps)

lemma issues_followUp:
  assumes "issues w i = Some ri"
  shows "issues (followUp cfg i w) =
     (if truthy (optionalFollowUpLabel cfg)
      then (issues w)(i \<mapsto> ri\<lparr>label_names := label_names ri
              @ filter (\<lambda>n. n \<notin> set (label_names ri)) [the (optionalFollowUpLabel cfg)]\<rparr>)
      else issues w)"
proof -
  have "issues (snd (ensureLabelExists cfg name color w)) i = Some ri" for name color
    using assms by (simp add: ensureLabelExists_eq receive_simps)
  then show ?thesis
    using assms
    by (simp add: followUp_def addLabels_Some ensureLabelExists_eq receive_simps)
qed

lemma requests_reopen:
  "requests (reopen ri i w) =
     requests w @ (if state ri = ''closed'' \<and> user_login ri \<noteq> closed_by_login ri
                   then [UpdateIssue i ''open'' None] else [])"
  by (simp add: reopen_def requests_snd_updateIssue)

lemma repo_labels_reopen: "repo_labels (reopen ri i w) = repo_labels w"
  by (simp add: reopen_def repo_labels_snd_updateIssue)

lemma issues_reopen:
  assumes "issues w i = Some ri'"
  shows "issues (reopen ri i w) =
     (if state ri = ''closed'' \<and> user_login ri \<noteq> closed_by_login ri
      then (issues w)(i \<mapsto> ri'\<lparr>state := ''open'', state_reason := None\<rparr>)
      else issues w)"
  using assms by (simp add: reopen_def updateIssue_Some receive_simps)

lemma unmark_qualifying_requests:
  assumes "readPayload env = Inr p"
      and "i = \<lparr>issue_number = comment_issue_number p,
                 issue_owner = comment_repository_owner_login p,
                 issue_repo = comment_repository_name p\<rparr>"
      and "issues w i = Some ri"
      and "responseRequiredLabel cfg \<in> set (label_names ri)"
      and "user_login ri = Some (comment_user_login p)"
  shows "sent w (snd (unmark cfg env w)) =
           [GetIssue i, ListLabelsOnIssue i, RemoveLabel i (responseRequiredLabel cfg)]
             @ (if truthy (optionalFollowUpLabel cfg)
                then GetLabel (config_repo cfg) (the (optionalFollowUpLabel cfg))
                       # (if repo_labels w (config_repo cfg, the (optionalFollowUpLabel cfg)) = None
                          then [CreateLabel (config_repo cfg) (the (optionalFollowUpLabel cfg))
                                  (if truthy (optionalFollowUpLabelColor cfg)
                                   then the (optionalFollowUpLabelColor cfg) else ''ffffff'')]
                          else [])
                       @ [AddLabels i [the (optionalFollowUpLabel cfg)]]
                else [])
             @ (if state ri = ''closed'' \<and> user_login ri \<noteq> closed_by_login ri
                then [UpdateIssue i ''open'' None] else [])"
  by (rule sent_append)
     (simp add: unmark_qualifying [OF assms] requests_reopen requests_followUp
        requests_snd_removeLabel repo_labels_snd_removeLabel receive_simps)

lemma unmark_qualifying_issue:
  assumes "readPayload env = Inr p"
      and "i = \<lparr>issue_number = comment_issue_number p,
                 issue_owner = comment_repository_owner_login p,
                 issue_repo = comment_repository_name p\<rparr>"
      and "issues w i = Some ri"
      and "responseRequiredLabel cfg \<in> set (label_names ri)"
      and "user_login ri = Some (comment_user_login p)"
  shows "issues (snd (unmark cfg env w)) i =
           Some (ri\<lparr>label_names :=
                      removeAll (responseRequiredLabel cfg) (label_names ri)
                        @ (if truthy (optionalFollowUpLabel cfg)
                           then filter (\<lambda>n. n \<notin> set (removeAll (responseRequiredLabel cfg) (label_names ri)))
                                  [the (optionalFollowUpLabel cfg)]
                           else []),
                    state := (if state ri = ''closed'' \<and> user_login ri \<noteq> closed_by_login ri
                              then ''open'' else state ri),
                    state_reason := (if state ri = ''closed'' \<and> user_login ri \<noteq> closed_by_login ri
                              then None else state_reason ri)\<rparr>)"
proof -
  let ?w2 = "receive (ListLabelsOnIssue i) (receive (GetIssue i) w)"
  let ?ri3 = "ri\<lparr>label_names := removeAll (responseRequiredLabel cfg) (label_names ri)\<rparr>"
  have ri2: "issues ?w2 i = Some ri" using assms(3) by (simp add: receive_simps)
  have w3: "issues (snd (removeLabel i (responseRequiredLabel cfg) ?w2)) i = Some ?ri3"
    by (simp add: removeLabel_present [OF ri2 assms(4)])
  let ?ri5 = "if truthy (optionalFollowUpLabel cfg)
      then ?ri3\<lparr>label_names := label_names ?ri3
              @ filter (\<lambda>n. n \<notin> set (label_names ?ri3)) [the (optionalFollowUpLabel cfg)]\<rparr>
      else ?ri3"
  have w5: "issues (followUp cfg i (snd (removeLabel i (responseRequiredLabel cfg) ?w2))) i = Some ?ri5"
    by (simp add: issues_followUp [OF w3] w3)
  show ?thesis
    by (simp add: unmark_qualifying [OF assms] issues_reopen [OF w5] w5)
qed

lemma example_readPayload: "readPayload example_env = Inr example_comment"
  by (simp add: readPayload_def example_env_def truthy_def)

lemma example_issue_eq:
  "example_issue = \<lparr>issue_number = comment_issue_number example_comment,
                 issue_owner = comment_repository_owner_login example_comment,
                 issue_repo = comment_repository_name example_comment\<rparr>"
  by (simp add: example_issue_def example_comment_def)

section \<open>\<open>unmark\<close>\<close>

text \<open>
  C3. For a comment event that \<open>unmark\<close> can read, on an issue that exists, the request to
  remove \<open>responseRequiredLabel\<close> is sent if and only if the label is among the labels the
  service lists for the issue and the author of the comment is the author of the issue.
  When both hold the run succeeds and the labels of the issue afterwards are the former
  ones without \<open>responseRequiredLabel\<close>, with the follow-up label when one is configured.
  Otherwise the run sends the two reading requests and nothing else: no label is removed,
  none is added, and the issue is not reopened.
\<close>

theorem unmark_removes_label_iff:
  assumes "readPayload env = Inr p"
      and "i = \<lparr>issue_number = comment_issue_number p,
                 issue_owner = comment_repository_owner_login p,
                 issue_repo = comment_repository_name p\<rparr>"
      and "issues w i = Some ri"
  shows "(RemoveLabel i (responseRequiredLabel cfg) \<in> set (sent w (snd (unmark cfg env w)))
            \<longleftrightarrow> responseRequiredLabel cfg \<in> set (label_names ri)
                 \<and> user_login ri = Some (comment_user_login p))
       \<and> (responseRequiredLabel cfg \<in> set (label_names ri)
            \<and> user_login ri = Some (comment_user_login p)
          \<longrightarrow> fst (unmark cfg env w) = Inr ()
              \<and> (\<exists>ri'. issues (snd (unmark cfg env w)) i = Some ri'
                     \<and> set (label_names ri') =
                         (set (label_names ri) - {responseRequiredLabel cfg})
                           \<union> (if truthy (optionalFollowUpLabel cfg)
                              then {the (optionalFollowUpLabel cfg)} else {})))
       \<and> (\<not> (responseRequiredLabel cfg \<in> set (label_names ri)
               \<and> user_login ri = Some (comment_user_login p))
          \<longrightarrow> unmark cfg env w
                = (Inr (), w\<lparr>requests := requests w @ [GetIssue i, ListLabelsOnIssue i]\<rparr>))"
proof (cases "responseRequiredLabel cfg \<in> set (label_names ri)
               \<and> user_login ri = Some (comment_user_login p)")
  case True
  then have m: "responseRequiredLabel cfg \<in> set (label_names ri)"
    and a: "user_login ri = Some (comment_user_login p)" by simp_all
  have "RemoveLabel i (responseRequiredLabel cfg) \<in> set (sent w (snd (unmark cfg env w)))"
    by (simp add: unmark_qualifying_requests [OF assms m a])
  moreover have "fst (unmark cfg env w) = Inr ()"
    by (simp add: unmark_qualifying [OF assms m a])
  moreover have "\<exists>ri'. issues (snd (unmark cfg env w)) i = Some ri'
                     \<and> set (label_names ri') =
                         (set (label_names ri) - {responseRequiredLabel cfg})
                           \<union> (if truthy (optionalFollowUpLabel cfg)
                              then {the (optionalFollowUpLabel cfg)} else {})"
    by (auto simp add: unmark_qualifying_issue [OF assms m a])
  ultimately show ?thesis using True by simp
next
  case False
  have "unmark cfg env w = (Inr (), w\<lparr>requests := requests w @ [GetIssue i, ListLabelsOnIssue i]\<rparr>)"
    by (simp add: unmark_not_qualifying [OF assms False] receive_def)
  moreover from this have "sent w (snd (unmark cfg env w)) = [GetIssue i, ListLabelsOnIssue i]"
    by (simp add: sent_def)
  ultimately show ?thesis using False by auto
qed

text \<open>
  The example comment of \<open>ann\<close> removes \<open>needs-info\<close>; with a configuration whose
  required label is not on the issue, the same comment changes nothing.
\<close>

theorem unmark_removes_label_iff_witness:
  "RemoveLabel example_issue ''needs-info''
     \<in> set (sent example_remote (snd (unmark example_cfg example_env example_remote)))
   \<and> unmark (example_cfg\<lparr>responseRequiredLabel := ''stale''\<rparr>) example_env example_remote
       = (Inr (), example_remote\<lparr>requests := [GetIssue example_issue, ListLabelsOnIssue example_issue]\<rparr>)"
proof -
  have ri: "issues example_remote example_issue = Some example_info"
    by (simp add: example_remote_def)
  have "RemoveLabel example_issue ''needs-info''
     \<in> set (sent example_remote (snd (unmark example_cfg example_env example_remote)))"
    using unmark_removes_label_iff [OF example_readPayload example_issue_eq ri, of example_cfg]
    by (simp add: example_cfg_def example_info_def example_comment_def)
  moreover have "unmark (example_cfg\<lparr>responseRequiredLabel := ''stale''\<rparr>) example_env example_remote
       = (Inr (), example_remote\<lparr>requests := [GetIssue example_issue, ListLabelsOnIssue example_issue]\<rparr>)"
    using unmark_removes_label_iff [OF example_readPayload example_issue_eq ri,
        of "example_cfg\<lparr>responseRequiredLabel := ''stale''\<rparr>"]
    by (simp add: example_cfg_def example_info_def example_comment_def example_remote_def)
  ultimately show ?thesis by simp
qed

text \<open>
  C9. When \<open>GITHUB_EVENT_PATH\<close> is not defined, \<open>unmark\<close> fails with the error
  \<open>GITHUB_EVENT_PATH is not defined\<close>. The remote state is the one it started from: no
  request has been sent, neither a mutation nor a second attempt, and the error is the
  result that the caller receives.
\<close>

theorem unmark_without_event_path_fails:
  assumes "GITHUB_EVENT_PATH env = None"
  shows "unmark cfg env w = (Inl (Error ''GITHUB_EVENT_PATH is not defined''), w)"
  using assms by (simp add: unmark_def readPayload_def truthy_def)

theorem unmark_without_event_path_fails_witness:
  "unmark example_cfg (example_env\<lparr>GITHUB_EVENT_PATH := None\<rparr>) example_remote
     = (Inl (Error ''GITHUB_EVENT_PATH is not defined''), example_remote)"
  using unmark_without_event_path_fails
    [of "example_env\<lparr>GITHUB_EVENT_PATH := None\<rparr>" example_cfg example_remote]
  by simp

text \<open>
  C4. In a qualifying \<open>unmark\<close> (the label is listed and the commenter is the author of
  the issue) the request that sets the state to \<open>open\<close> is sent if and only if the state
  that \<open>issues.get\<close> reported is \<open>closed\<close> and the user who closed the issue is not its
  author; an issue whose \<open>closed_by\<close> is absent counts as closed by someone else, as
  \<open>closed_by?.login\<close> is then undefined. No other update of an issue is sent, and the state
  of the issue afterwards is \<open>open\<close> in that case and the former state otherwise. In
  particular an issue closed by its own author is not reopened.
\<close>

theorem unmark_reopens_iff:
  assumes "readPayload env = Inr p"
      and "i = \<lparr>issue_number = comment_issue_number p,
                 issue_owner = comment_repository_owner_login p,
                 issue_repo = comment_repository_name p\<rparr>"
      and "issues w i = Some ri"
      and "responseRequiredLabel cfg \<in> set (label_names ri)"
      and "user_login ri = Some (comment_user_login p)"
  shows "(UpdateIssue i ''open'' None \<in> set (sent w (snd (unmark cfg env w)))
            \<longleftrightarrow> state ri = ''closed'' \<and> closed_by_login ri \<noteq> user_login ri)
       \<and> (\<forall>j st reason. UpdateIssue j st reason \<in> set (sent w (snd (unmark cfg env w)))
            \<longrightarrow> j = i \<and> st = ''open'' \<and> reason = None)
       \<and> (\<exists>ri'. issues (snd (unmark cfg env w)) i = Some ri'
              \<and> state ri' = (if state ri = ''closed'' \<and> closed_by_login ri \<noteq> user_login ri
                             then ''open'' else state ri))"
proof -
  have "\<exists>ri'. issues (snd (unmark cfg env w)) i = Some ri'
              \<and> state ri' = (if state ri = ''closed'' \<and> closed_by_login ri \<noteq> user_login ri
                             then ''open'' else state ri)"
    by (auto simp add: unmark_qualifying_issue [OF assms])
  then show ?thesis
    by (auto simp add: unmark_qualifying_requests [OF assms])
qed

text \<open>
  The example issue closed by \<open>bot\<close> is reopened by the comment of \<open>ann\<close>; closed by
  \<open>ann\<close> herself, it is not.
\<close>

theorem unmark_reopens_iff_witness:
  "UpdateIssue example_issue ''open'' None
     \<in> set (sent example_remote_closed (snd (unmark example_cfg example_env example_remote_closed)))
   \<and> UpdateIssue example_issue ''open'' None
     \<notin> set (sent (example_remote_closed\<lparr>issues := [example_issue \<mapsto>
                 example_info\<lparr>state := ''closed'', closed_by_login := Some ''ann''\<rparr>]\<rparr>)
           (snd (unmark example_cfg example_env
                  (example_remote_closed\<lparr>issues := [example_issue \<mapsto>
                     example_info\<lparr>state := ''closed'', closed_by_login := Some ''ann''\<rparr>]\<rparr>))))"
proof -
  let ?c = "example_info\<lparr>state := ''closed'', state_reason := Some ''inactivity'',
                      closed_by_login := Some ''bot''\<rparr>"
  let ?a = "example_info\<lparr>state := ''closed'', closed_by_login := Some ''ann''\<rparr>"
  let ?wa = "example_remote_closed\<lparr>issues := [example_issue \<mapsto> ?a]\<rparr>"
  have c: "issues example_remote_closed example_issue = Some ?c"
    by (simp add: example_remote_closed_def)
  have a: "issues ?wa example_issue = Some ?a"
    by simp
  have mc: "responseRequiredLabel example_cfg \<in> set (label_names ?c)"
    and ma: "responseRequiredLabel example_cfg \<in> set (label_names ?a)"
    by (simp_all add: example_cfg_def example_info_def)
  have uc: "user_login ?c = Some (comment_user_login example_comment)"
    and ua: "user_login ?a = Some (comment_user_login example_comment)"
    by (simp_all add: example_info_def example_comment_def)
  have "UpdateIssue example_issue ''open'' None
     \<in> set (sent example_remote_closed (snd (unmark example_cfg example_env example_remote_closed)))"
    using unmark_reopens_iff [OF example_readPayload example_issue_eq c mc uc]
    by (simp add: example_info_def)
  moreover have "UpdateIssue example_issue ''open'' None
     \<notin> set (sent ?wa (snd (unmark example_cfg example_env ?wa)))"
    using unmark_reopens_iff [OF example_readPayload example_issue_eq a ma ua]
    by (simp add: example_info_def)
  ultimately show ?thesis by simp
qed

text \<open>
  C10. In a qualifying \<open>unmark\<close> with a follow-up label configured, no colour configured
  for it and no label of that name in the repository of the configuration, the label is
  created with the colour \<open>ffffff\<close>: this is the only \<open>createLabel\<close> request of the run,
  and the repository holds the label with that colour afterwards.
\<close>

theorem unmark_followup_default_color:
  assumes "readPayload env = Inr p"
      and "i = \<lparr>issue_number = comment_issue_number p,
                 issue_owner = comment_repository_owner_login p,
                 issue_repo = comment_repository_name p\<rparr>"
      and "issues w i = Some ri"
      and "responseRequiredLabel cfg \<in> set (label_names ri)"
      and "user_login ri = Some (comment_user_login p)"
      and "optionalFollowUpLabel cfg = Some l" and "l \<noteq> []"
      and "\<not> truthy (optionalFollowUpLabelColor cfg)"
      and "repo_labels w (config_repo cfg, l) = None"
  shows "CreateLabel (config_repo cfg) l ''ffffff'' \<in> set (sent w (snd (unmark cfg env w)))
       \<and> (\<forall>r n c. CreateLabel r n c \<in> set (sent w (snd (unmark cfg env w)))
            \<longrightarrow> r = config_repo cfg \<and> n = l \<and> c = ''ffffff'')
       \<and> repo_labels (snd (unmark cfg env w)) (config_repo cfg, l) = Some ''ffffff''"
proof -
  have t: "truthy (optionalFollowUpLabel cfg)" and l: "the (optionalFollowUpLabel cfg) = l"
    using assms(6,7) by (simp_all add: truthy_def)
  have q: "readPayload env = Inr p" "i = \<lparr>issue_number = comment_issue_number p,
                 issue_owner = comment_repository_owner_login p,
                 issue_repo = comment_repository_name p\<rparr>" "issues w i = Some ri"
     "responseRequiredLabel cfg \<in> set (label_names ri)" "user_login ri = Some (comment_user_login p)"
    using assms by blast+
  have "repo_labels (snd (unmark cfg env w)) (config_repo cfg, l) = Some ''ffffff''"
    using t l assms(8,9)
    by (simp add: unmark_qualifying [OF q] repo_labels_reopen repo_labels_followUp
        repo_labels_snd_removeLabel receive_simps)
  then show ?thesis
    using t l assms(8,9)
    by (auto simp add: unmark_qualifying_requests [OF q])
qed

theorem unmark_followup_default_color_witness:
  "CreateLabel example_repo ''follow-up'' ''ffffff''
     \<in> set (sent example_remote (snd (unmark example_cfg example_env example_remote)))
   \<and> repo_labels (snd (unmark example_cfg example_env example_remote))
        (example_repo, ''follow-up'') = Some ''ffffff''"
proof -
  have ri: "issues example_remote example_issue = Some example_info"
    by (simp add: example_remote_def)
  have m: "responseRequiredLabel example_cfg \<in> set (label_names example_info)"
    by (simp add: example_cfg_def example_info_def)
  have u: "user_login example_info = Some (comment_user_login example_comment)"
    by (simp add: example_info_def example_comment_def)
  have f: "optionalFollowUpLabel example_cfg = Some ''follow-up''" and n: "''follow-up'' \<noteq> []"
    and c: "\<not> truthy (optionalFollowUpLabelColor example_cfg)"
    and r: "repo_labels example_remote (config_repo example_cfg, ''follow-up'') = None"
    by (simp_all add: example_cfg_def truthy_def example_remote_def)
  from unmark_followup_default_color [OF example_readPayload example_issue_eq ri m u f n c r]
  show ?thesis by (simp add: example_cfg_def)
qed

section \<open>\<open>close\<close>\<close>

text \<open>
  C8. On an issue that exists, \<open>close\<close> succeeds and sends, in this order, the comment
  request with the text of \<open>closeComment\<close>, only when \<open>closeComment\<close> is configured (a
  non-empty string), and the update that sets the state to \<open>closed\<close> with the state reason
  \<open>inactivity\<close>. Without a configured comment the update is the only request. Afterwards
  the issue is closed for inactivity and has the comment exactly when one was configured.
\<close>

theorem close_comment_then_closed:
  assumes "issues w i = Some ri"
  shows "fst (close cfg i w) = Inr ()
       \<and> sent w (snd (close cfg i w)) =
           (if truthy (closeComment cfg) then [CreateComment i (the (closeComment cfg))] else [])
             @ [UpdateIssue i ''closed'' (Some ''inactivity'')]
       \<and> issues (snd (close cfg i w)) i =
           Some (ri\<lparr>comments := (if truthy (closeComment cfg)
                                   then comments ri @ [the (closeComment cfg)] else comments ri),
                    state := ''closed'', state_reason := Some ''inactivity''\<rparr>)"
proof (cases "truthy (closeComment cfg)")
  case True
  let ?w1 = "(receive (CreateComment i (the (closeComment cfg))) w)
        \<lparr>issues := (issues w)(i \<mapsto> ri\<lparr>comments := comments ri @ [the (closeComment cfg)]\<rparr>)\<rparr>"
  have c: "createComment i (the (closeComment cfg)) w = (Inr (), ?w1)"
    using assms by (rule createComment_Some)
  have "issues ?w1 i = Some (ri\<lparr>comments := comments ri @ [the (closeComment cfg)]\<rparr>)"
    by simp
  from updateIssue_Some [OF this]
  have "close cfg i w =
          (Inr (), (receive (UpdateIssue i ''closed'' (Some ''inactivity'')) ?w1)
             \<lparr>issues := (issues ?w1)(i \<mapsto> ri\<lparr>comments := comments ri @ [the (closeComment cfg)],
                    state := ''closed'', state_reason := Some ''inactivity''\<rparr>)\<rparr>)"
    using True by (simp add: close_def c)
  then show ?thesis using True by (simp add: sent_def receive_simps)
next
  case False
  then have "close cfg i w =
          (Inr (), (receive (UpdateIssue i ''closed'' (Some ''inactivity'')) w)
             \<lparr>issues := (issues w)(i \<mapsto> ri\<lparr>state := ''closed'', state_reason := Some ''inactivity''\<rparr>)\<rparr>)"
    using updateIssue_Some [OF assms] by (simp add: close_def)
  then show ?thesis using False by (simp add: sent_def receive_simps)
qed

theorem close_comment_then_closed_witness:
  "sent example_remote (snd (close example_cfg example_issue example_remote))
     = [CreateComment example_issue ''bye'', UpdateIssue example_issue ''closed'' (Some ''inactivity'')]
   \<and> sent example_remote
        (snd (close (example_cfg\<lparr>closeComment := None\<rparr>) example_issue example_remote))
     = [UpdateIssue example_issue ''closed'' (Some ''inactivity'')]"
proof -
  have ri: "issues example_remote example_issue = Some example_info"
    by (simp add: example_remote_def)
  show ?thesis
    using close_comment_then_closed [OF ri, of example_cfg]
      close_comment_then_closed [OF ri, of "example_cfg\<lparr>closeComment := None\<rparr>"]
    by (simp add: example_cfg_def truthy_def)
qed

section \<open>\<open>removeLabels\<close>\<close>

text \<open>
  C5. When the sender of an issue-closed event is not the author of the issue,
  \<open>removeLabels\<close> returns without sending a request: the remote state, and with it the
  labels of every issue, is what it was.
\<close>

theorem removeLabels_other_closer_unchanged:
  assumes "sender_login payload \<noteq> issue_user_login payload"
  shows "removeLabels cfg payload w = (Inr (), w)"
  using assms by (simp add: removeLabels_def Let_def)

text \<open>The example issue, closed by \<open>bob\<close>, keeps its labels.\<close>

theorem removeLabels_other_closer_unchanged_witness:
  "action (example_closed\<lparr>sender_login := ''bob''\<rparr>) = ''closed''
   \<and> removeLabels example_cfg (example_closed\<lparr>sender_login := ''bob''\<rparr>) example_remote
       = (Inr (), example_remote)"
proof -
  have "sender_login (example_closed\<lparr>sender_login := ''bob''\<rparr>)
          \<noteq> issue_user_login (example_closed\<lparr>sender_login := ''bob''\<rparr>)"
    by (simp add: example_closed_def)
  from removeLabels_other_closer_unchanged [OF this, of example_cfg example_remote]
  show ?thesis by (simp add: example_closed_def)
qed

text \<open>
  C2, as stated, fails: \<open>removeLabels\<close> returns at once when no follow-up label is
  configured. The example issue carries \<open>needs-info\<close> and is closed by its author
  \<open>ann\<close>; with \<open>optionalFollowUpLabel\<close> not configured the label is still on the issue
  after the run.
\<close>

theorem removeLabels_without_follow_up_counterexample:
  "action example_closed = ''closed''
   \<and> sender_login example_closed = issue_user_login example_closed
   \<and> ''needs-info''
       \<in> set (label_names (the (issues
            (snd (removeLabels (example_cfg\<lparr>optionalFollowUpLabel := None\<rparr>) example_closed
                    example_remote))
            example_issue)))"
  by (simp add: removeLabels_def truthy_def example_cfg_def example_closed_def
      example_remote_def example_info_def)

text \<open>
  C2, amended. When a follow-up label is configured (a non-empty string), for an
  issue-closed event whose sender is the author of the issue, on an issue that exists,
  \<open>removeLabels\<close> lists the labels of the issue and then sends a removal for
  \<open>responseRequiredLabel\<close> exactly when it is listed and a removal for the follow-up label
  exactly when it is listed; no request is sent for a label that is not on the issue.
  Afterwards the issue carries neither label and its other labels are as before, and
  the run ends without an error when the two configured names differ.
\<close>

theorem removeLabels_author_closed:
  assumes "optionalFollowUpLabel cfg = Some l" and "l \<noteq> []"
      and "action payload = ''closed''"
      and "sender_login payload = issue_user_login payload"
      and "i = \<lparr>issue_number = payload_issue_number payload,
                 issue_owner = repository_owner_login payload,
                 issue_repo = repository_name payload\<rparr>"
      and "issues w i = Some ri"
  shows "sent w (snd (removeLabels cfg payload w)) =
           ListLabelsOnIssue i
             # (if responseRequiredLabel cfg \<in> set (label_names ri)
                then [RemoveLabel i (responseRequiredLabel cfg)] else [])
             @ (if l \<in> set (label_names ri) then [RemoveLabel i l] else [])
       \<and> (\<exists>ri'. issues (snd (removeLabels cfg payload w)) i = Some ri'
              \<and> label_names ri' = removeAll l (removeAll (responseRequiredLabel cfg) (label_names ri)))
       \<and> (l \<noteq> responseRequiredLabel cfg \<longrightarrow> fst (removeLabels cfg payload w) = Inr ())"
proof -
  let ?rrl = "responseRequiredLabel cfg"
  let ?w1 = "receive (ListLabelsOnIssue i) w"
  have t: "truthy (optionalFollowUpLabel cfg)" "the (optionalFollowUpLabel cfg) = l"
    using assms(1,2) by (simp_all add: truthy_def)
  have ri1: "issues ?w1 i = Some ri" using assms(6) by (simp add: receive_simps)
  define s2 where "s2 = (if ?rrl \<in> set (label_names ri) then removeLabel i ?rrl ?w1 else (Inr (), ?w1))"
  have s2_fst: "fst s2 = Inr ()"
    by (simp add: s2_def removeLabel_present [OF ri1])
  have s2_req: "requests (snd s2) = requests w @ ListLabelsOnIssue i
                  # (if ?rrl \<in> set (label_names ri) then [RemoveLabel i ?rrl] else [])"
    by (simp add: s2_def requests_snd_removeLabel receive_simps)
  have s2_iss: "issues (snd s2) i = Some (ri\<lparr>label_names := removeAll ?rrl (label_names ri)\<rparr>)"
    using ri1 by (simp add: s2_def removeLabel_present [OF ri1])
  have main: "removeLabels cfg payload w =
          (if l \<in> set (label_names ri) then removeLabel i l (snd s2) else (Inr (), snd s2))"
    using assms(3,4) t s2_fst
    by (cases s2)
       (simp add: removeLabels_def Let_def assms(5) [symmetric] listLabelsOnIssue_Some [OF assms(6)]
          s2_def [symmetric])
  have req: "sent w (snd (removeLabels cfg payload w)) =
           ListLabelsOnIssue i
             # (if ?rrl \<in> set (label_names ri) then [RemoveLabel i ?rrl] else [])
             @ (if l \<in> set (label_names ri) then [RemoveLabel i l] else [])"
    by (rule sent_append) (simp add: main requests_snd_removeLabel s2_req)
  have iss: "\<exists>ri'. issues (snd (removeLabels cfg payload w)) i = Some ri'
              \<and> label_names ri' = removeAll l (removeAll ?rrl (label_names ri))"
    using s2_iss by (auto simp add: main removeLabel_def receive_simps)
  have ok: "fst (removeLabels cfg payload w) = Inr ()" if "l \<noteq> ?rrl"
    using that s2_iss by (simp add: main removeLabel_def)
  from req iss ok show ?thesis by blast
qed

text \<open>
  The example issue, closed by its author \<open>ann\<close>, loses \<open>needs-info\<close>; the follow-up
  label is not on it and no removal is sent for it.
\<close>

theorem removeLabels_author_closed_witness:
  "sent example_remote (snd (removeLabels example_cfg example_closed example_remote))
     = [ListLabelsOnIssue example_issue, RemoveLabel example_issue ''needs-info'']
   \<and> fst (removeLabels example_cfg example_closed example_remote) = Inr ()
   \<and> label_names (the (issues (snd (removeLabels example_cfg example_closed example_remote))
        example_issue)) = [''bug'']"
proof -
  have f: "optionalFollowUpLabel example_cfg = Some ''follow-up''" and n: "''follow-up'' \<noteq> []"
    by (simp_all add: example_cfg_def)
  have a: "action example_closed = ''closed''"
    and s: "sender_login example_closed = issue_user_login example_closed"
    and i: "example_issue = \<lparr>issue_number = payload_issue_number example_closed,
                 issue_owner = repository_owner_login example_closed,
                 issue_repo = repository_name example_closed\<rparr>"
    by (simp_all add: example_closed_def example_issue_def)
  have ri: "issues example_remote example_issue = Some example_info"
    by (simp add: example_remote_def)
  from removeLabels_author_closed [OF f n a s i ri]
  show ?thesis by (auto simp add: example_cfg_def example_info_def)
qed

section \<open>The closeable issues\<close>

text \<open>
  What \<open>paginate\<close> returns for an issue that exists: all events from the first one of
  the page on, after one request for each page.
\<close>

lemma paginate_None:
  "issues w i = None \<Longrightarrow>
   paginate i pp pg w = (Inl (RequestError 404), receive (ListEvents i pp pg) w)"
  by (subst paginate.simps) (simp add: listEvents_def)

lemma paginate_unfold:
  assumes "issues w i = Some ri"
  shows "paginate i pp pg w =
           (if 0 < pp \<and> pg * pp < length (events ri)
            then (case paginate i pp (Suc pg) (receive (ListEvents i pp pg) w) of
                    (Inl e, w2) \<Rightarrow> (Inl e, w2)
                  | (Inr rest, w2) \<Rightarrow>
                      (Inr (take pp (drop ((pg - 1) * pp) (events ri)) @ rest), w2))
            else (Inr (take pp (drop ((pg - 1) * pp) (events ri))),
                  receive (ListEvents i pp pg) w))"
  by (subst paginate.simps) (simp add: listEvents_def assms del: One_nat_def)

lemma page_then_rest:
  assumes "0 < pg"
  shows "take pp (drop ((pg - Suc 0) * pp) xs) @ drop (pg * pp) xs = drop ((pg - Suc 0) * pp) xs"
proof -
  have e: "pg * pp = pp + (pg - Suc 0) * pp"
    using assms by (cases pg) simp_all
  show ?thesis
    unfolding e drop_drop [symmetric] by (rule append_take_drop_id)
qed

lemma last_page:
  assumes "0 < pg" and "\<not> pg * pp < length xs"
  shows "take pp (drop ((pg - Suc 0) * pp) xs) = drop ((pg - Suc 0) * pp) xs"
proof -
  have "pg * pp = pp + (pg - Suc 0) * pp"
    using assms(1) by (cases pg) simp_all
  then have "length xs - (pg - Suc 0) * pp \<le> pp"
    using assms(2) by arith
  then show ?thesis by simp
qed

lemma paginate_Some:
  assumes "issues w i = Some ri" and "0 < pp" and "0 < pg"
  shows "\<exists>pgs. paginate i pp pg w =
           (Inr (drop ((pg - 1) * pp) (events ri)),
            w\<lparr>requests := requests w @ map (ListEvents i pp) (pg # pgs)\<rparr>)"
  using assms(1,3)
proof (induction "length (events ri) - pg * pp" arbitrary: pg w rule: less_induct)
  case less
  let ?w1 = "receive (ListEvents i pp pg) w"
  show ?case
  proof (cases "pg * pp < length (events ri)")
    case True
    have "length (events ri) - Suc pg * pp < length (events ri) - pg * pp"
      using True assms(2) by simp
    moreover have "issues ?w1 i = Some ri"
      using less.prems(1) by (simp add: receive_def)
    ultimately obtain pgs where
      "paginate i pp (Suc pg) ?w1 =
         (Inr (drop ((Suc pg - 1) * pp) (events ri)),
          ?w1\<lparr>requests := requests ?w1 @ map (ListEvents i pp) (Suc pg # pgs)\<rparr>)"
      using less.hyps [of "Suc pg" ?w1] by blast
    then have "paginate i pp pg w =
         (Inr (drop ((pg - 1) * pp) (events ri)),
          w\<lparr>requests := requests w @ map (ListEvents i pp) (pg # Suc pg # pgs)\<rparr>)"
      using True assms(2) less.prems(2)
      by (simp add: paginate_unfold [OF less.prems(1)] page_then_rest receive_def)
    then show ?thesis by blast
  next
    case False
    then have "paginate i pp pg w =
         (Inr (drop ((pg - 1) * pp) (events ri)),
          w\<lparr>requests := requests w @ map (ListEvents i pp) (pg # [])\<rparr>)"
      using less.prems(2)
      by (simp add: paginate_unfold [OF less.prems(1)] last_page receive_def)
    then show ?thesis by blast
  qed
qed

lemma findLastLabeledEvent_Some:
  assumes "issues w i = Some ri"
  shows "\<exists>pgs. findLastLabeledEvent cfg i w =
           (Inr (find (\<lambda>ev. event ev = ''labeled'' \<and> label_name ev = responseRequiredLabel cfg)
                   (rev (events ri))),
            w\<lparr>requests := requests w @ map (ListEvents i 100) (1 # 1 # pgs)\<rparr>)"
proof -
  let ?w1 = "receive (ListEvents i 100 1) w"
  have "issues ?w1 i = Some ri" using assms by (simp add: receive_def)
  from paginate_Some [OF this, of 100 1] obtain pgs where
    "paginate i 100 1 ?w1 =
       (Inr (events ri), ?w1\<lparr>requests := requests ?w1 @ map (ListEvents i 100) (1 # pgs)\<rparr>)"
    by auto
  then have "findLastLabeledEvent cfg i w =
           (Inr (find (\<lambda>ev. event ev = ''labeled'' \<and> label_name ev = responseRequiredLabel cfg)
                   (rev (events ri))),
            w\<lparr>requests := requests w @ map (ListEvents i 100) (1 # 1 # pgs)\<rparr>)"
    using assms by (simp add: findLastLabeledEvent_def listEvents_def receive_def)
  then show ?thesis by blast
qed

lemma findLastLabeledEvent_None:
  assumes "issues w i = None"
  shows "findLastLabeledEvent cfg i w = (Inl (RequestError 404), receive (ListEvents i 100 1) w)"
  using assms by (simp add: findLastLabeledEvent_def listEvents_def)

lemma closeable_Some:
  assumes "issues w \<lparr>issue_number = n, issue_owner = owner (config_repo cfg),
                     issue_repo = repo (config_repo cfg)\<rparr> = Some ri"
  shows "fst (closeable cfg d n w) =
          (case find (\<lambda>ev. event ev = ''labeled'' \<and> label_name ev = responseRequiredLabel cfg)
                  (rev (events ri)) of
             None \<Rightarrow> Inr False
           | Some ev \<Rightarrow>
               if valid_time (created_at ev)
               then (case d of None \<Rightarrow> Inl RangeError | Some th \<Rightarrow> Inr (created_at ev < th))
               else Inl RangeError)"
proof -
  from findLastLabeledEvent_Some [OF assms, of cfg] obtain w1 where
    "findLastLabeledEvent cfg \<lparr>issue_number = n, issue_owner = owner (config_repo cfg),
                     issue_repo = repo (config_repo cfg)\<rparr> w =
       (Inr (find (\<lambda>ev. event ev = ''labeled'' \<and> label_name ev = responseRequiredLabel cfg)
                   (rev (events ri))), w1)"
    by blast
  then show ?thesis
    by (simp add: closeable_def Let_def new_Date_def toISOString_def date_less_def
        split: option.splits)
qed

lemma closeable_None:
  assumes "issues w \<lparr>issue_number = n, issue_owner = owner (config_repo cfg),
                     issue_repo = repo (config_repo cfg)\<rparr> = None"
  shows "fst (closeable cfg d n w) = Inl (RequestError 404)"
  by (simp add: closeable_def findLastLabeledEvent_None [OF assms])

lemma closeable_snd:
  "\<exists>pgs. snd (closeable cfg d n w) =
      w\<lparr>requests := requests w @
           map (ListEvents \<lparr>issue_number = n, issue_owner = owner (config_repo cfg),
                            issue_repo = repo (config_repo cfg)\<rparr> 100) pgs\<rparr>"
proof (cases "issues w \<lparr>issue_number = n, issue_owner = owner (config_repo cfg),
                     issue_repo = repo (config_repo cfg)\<rparr>")
  case None
  have "snd (closeable cfg d n w) =
      w\<lparr>requests := requests w @
           map (ListEvents \<lparr>issue_number = n, issue_owner = owner (config_repo cfg),
                            issue_repo = repo (config_repo cfg)\<rparr> 100) [1]\<rparr>"
    by (simp add: closeable_def findLastLabeledEvent_None [OF None] receive_def)
  then show ?thesis by blast
next
  case (Some ri)
  from findLastLabeledEvent_Some [OF Some, of cfg] obtain pgs where
    f: "findLastLabeledEvent cfg \<lparr>issue_number = n, issue_owner = owner (config_repo cfg),
                     issue_repo = repo (config_repo cfg)\<rparr> w =
       (Inr (find (\<lambda>ev. event ev = ''labeled'' \<and> label_name ev = responseRequiredLabel cfg)
                   (rev (events ri))),
        w\<lparr>requests := requests w @
           map (ListEvents \<lparr>issue_number = n, issue_owner = owner (config_repo cfg),
                            issue_repo = repo (config_repo cfg)\<rparr> 100) (1 # 1 # pgs)\<rparr>)"
    by blast
  have "snd (closeable cfg d n w) =
      w\<lparr>requests := requests w @
           map (ListEvents \<lparr>issue_number = n, issue_owner = owner (config_repo cfg),
                            issue_repo = repo (config_repo cfg)\<rparr> 100) (1 # 1 # pgs)\<rparr>"
    unfolding closeable_def f
    by (simp add: Let_def split: option.splits sum.splits)
  then show ?thesis by blast
qed

lemma closeable_issues: "issues (snd (closeable cfg d n w)) = issues w"
  using closeable_snd [of cfg d n w] by auto

lemma closeable_fst_cong:
  assumes "issues w = issues w'"
  shows "fst (closeable cfg d n w) = fst (closeable cfg d n w')"
proof (cases "issues w \<lparr>issue_number = n, issue_owner = owner (config_repo cfg),
                     issue_repo = repo (config_repo cfg)\<rparr>")
  case None
  then show ?thesis using assms by (simp add: closeable_None)
next
  case (Some ri)
  then show ?thesis using assms by (simp add: closeable_Some)
qed

lemma find_rev_Some:
  assumes "find P (rev xs) = Some e"
  shows "\<exists>k<length xs. xs ! k = e \<and> P (xs ! k) \<and> (\<forall>j<length xs. k < j \<longrightarrow> \<not> P (xs ! j))"
proof -
  from assms [unfolded find_Some_iff]
  obtain m where m: "m < length (rev xs)" "P (rev xs ! m)" "e = rev xs ! m"
    "\<forall>j<m. \<not> P (rev xs ! j)"
    by blast
  have m1: "m < length xs" using m(1) by simp
  let ?k = "length xs - Suc m"
  have k: "?k < length xs" using m1 by simp
  have e: "xs ! ?k = e" using m1 m(3) by (simp add: rev_nth)
  have later: "\<not> P (xs ! j)" if "j < length xs" "?k < j" for j
  proof -
    have "length xs - Suc j < m" using that m1 by arith
    then have "\<not> P (rev xs ! (length xs - Suc j))" using m(4) by blast
    moreover have "rev xs ! (length xs - Suc j) = xs ! j"
      using that(1) by (simp add: rev_nth)
    ultimately show ?thesis by simp
  qed
  have "P (xs ! ?k)" using e m(2,3) by simp
  with k e later show ?thesis by blast
qed

lemma last_match_unique:
  assumes "k < length xs" "P (xs ! k)" "\<forall>j<length xs. k < j \<longrightarrow> \<not> P (xs ! j)"
      and "k' < length xs" "P (xs ! k')" "\<forall>j<length xs. k' < j \<longrightarrow> \<not> P (xs ! j)"
  shows "k = k'"
proof (rule ccontr)
  assume "k \<noteq> k'"
  then consider "k < k'" | "k' < k" by arith
  then show False
  proof cases
    case 1
    with assms(3,4,5) show False by blast
  next
    case 2
    with assms(1,2,6) show False by blast
  qed
qed

lemma ttl_eq: "days * 24 * 60 * 60 * 1000 = days * (86400000::int)"
  by simp

lemma since_eq:
  "since now days =
     (if valid_time (now - days * 86400000) then Some (now - days * 86400000) else None)"
  unfolding since_def Let_def new_Date_def ttl_eq ..

lemma since_valid:
  "valid_time (now - days * 86400000) \<Longrightarrow> since now days = Some (now - days * 86400000)"
  by (simp only: since_eq if_True)

lemma example_issue_lookup:
  "issues example_remote \<lparr>issue_number = 7, issue_owner = owner (config_repo example_cfg),
                     issue_repo = repo (config_repo example_cfg)\<rparr> = Some example_info"
  by (simp add: example_remote_def example_cfg_def example_repo_def example_issue_def)

lemma example_times: "\<forall>e\<in>set (events example_info). valid_time (created_at e)"
  by (simp add: example_info_def valid_time_def)

text \<open>
  The verdict of the callback on one issue: true if and only if the last event
  \<open>labeled\<close> with the label \<open>responseRequiredLabel\<close> exists and is strictly older than the
  threshold.
\<close>

lemma closeable_last_labeled:
  assumes ri: "issues w \<lparr>issue_number = n, issue_owner = owner (config_repo cfg),
                     issue_repo = repo (config_repo cfg)\<rparr> = Some ri"
      and times: "\<forall>e\<in>set (events ri). valid_time (created_at e)"
      and thr: "valid_time (now - daysUntilClose cfg * 86400000)"
  shows "fst (closeable cfg (since now (daysUntilClose cfg)) n w) =
           Inr (\<exists>k<length (events ri).
                  event (events ri ! k) = ''labeled''
                \<and> label_name (events ri ! k) = responseRequiredLabel cfg
                \<and> (\<forall>j<length (events ri). k < j \<longrightarrow>
                      \<not> (event (events ri ! j) = ''labeled''
                         \<and> label_name (events ri ! j) = responseRequiredLabel cfg))
                \<and> created_at (events ri ! k) < now - daysUntilClose cfg * 86400000)"
proof -
  let ?P = "\<lambda>ev. event ev = ''labeled'' \<and> label_name ev = responseRequiredLabel cfg"
  let ?th = "now - daysUntilClose cfg * 86400000"
  let ?xs = "events ri"
  show ?thesis
  proof (cases "find ?P (rev ?xs)")
    case None
    then have "\<forall>k<length ?xs. \<not> ?P (?xs ! k)"
      by (simp add: find_None_iff)
    then have "\<not> (\<exists>k<length ?xs. ?P (?xs ! k)
                \<and> (\<forall>j<length ?xs. k < j \<longrightarrow> \<not> ?P (?xs ! j)) \<and> created_at (?xs ! k) < ?th)"
      by blast
    then show ?thesis
      using None by (simp add: closeable_Some [OF ri])
  next
    case (Some e)
    from find_rev_Some [OF Some] obtain k where k: "k < length ?xs" "?xs ! k = e" "?P (?xs ! k)"
      "\<forall>j<length ?xs. k < j \<longrightarrow> \<not> ?P (?xs ! j)"
      by blast
    have v: "valid_time (created_at e)"
      using k(1,2) times by (metis nth_mem)
    have "(\<exists>k'<length ?xs. ?P (?xs ! k')
                \<and> (\<forall>j<length ?xs. k' < j \<longrightarrow> \<not> ?P (?xs ! j)) \<and> created_at (?xs ! k') < ?th)
           \<longleftrightarrow> created_at e < ?th" (is "?L \<longleftrightarrow> ?R")
    proof
      assume ?L
      then obtain k' where k': "k' < length ?xs" "?P (?xs ! k')"
        "\<forall>j<length ?xs. k' < j \<longrightarrow> \<not> ?P (?xs ! j)" "created_at (?xs ! k') < ?th"
        by blast
      have "k = k'"
        using k(1,3,4) k'(1,2,3) by (rule last_match_unique [where P = ?P])
      then show ?R using k'(4) k(2) by simp
    next
      assume ?R
      then show ?L using k by blast
    qed
    then show ?thesis
      using Some v by (simp add: closeable_Some [OF ri] since_valid [OF thr])
  qed
qed

lemma filter_closeable_ok:
  assumes "\<forall>n\<in>set ns. fst (closeable cfg d n w) = Inr (P n)"
  shows "fst (filter_closeable cfg d ns w) = Inr (filter P ns)"
  using assms
proof (induction ns arbitrary: w)
  case Nil
  then show ?case by simp
next
  case (Cons n ns)
  obtain r w1 where c: "closeable cfg d n w = (r, w1)" by (cases "closeable cfg d n w")
  have r: "r = Inr (P n)" using Cons.prems c by simp
  have "issues w1 = issues w" using closeable_issues [of cfg d n w] c by simp
  then have "fst (closeable cfg d m w1) = fst (closeable cfg d m w)" for m
    by (rule closeable_fst_cong)
  then have "\<forall>m\<in>set ns. fst (closeable cfg d m w1) = Inr (P m)"
    using Cons.prems by simp
  then have "fst (filter_closeable cfg d ns w1) = Inr (filter P ns)"
    by (rule Cons.IH)
  then show ?case
    using c r by (cases "filter_closeable cfg d ns w1") simp
qed

lemma getCloseableIssues_eq:
  "getCloseableIssues cfg now w =
     filter_closeable cfg (since now (daysUntilClose cfg))
       (take 30 (search_index w
          (''repo:'' @ owner (config_repo cfg) @ ''/'' @ repo (config_repo cfg)
             @ '' is:issue is:open label:\"'' @ responseRequiredLabel cfg @ ''\"'')
          ''updated'' ''asc''))
       (receive (SearchIssuesAndPullRequests
          (''repo:'' @ owner (config_repo cfg) @ ''/'' @ repo (config_repo cfg)
             @ '' is:issue is:open label:\"'' @ responseRequiredLabel cfg @ ''\"'')
          ''updated'' ''asc'' 30) w)"
  by (simp add: getCloseableIssues_def issuesAndPullRequests_def Let_def)

text \<open>
  C1. \<open>getCloseableIssues\<close> is the step of \<open>sweep\<close> that judges the issues: it considers
  \<open>items\<close>, the first page of the search. When each of them exists and has events with valid
  time values, and the threshold \<open>now - daysUntilClose * 24h\<close> is a valid time value, the
  step returns without an error, and what it returns is \<open>items\<close>, in their order, reduced
  to the issues whose history has an event \<open>labeled\<close> with the label
  \<open>responseRequiredLabel\<close>, with no such event later in the history, whose time value is
  strictly less than the threshold. So a considered issue is judged closeable if and only
  if its most recent such event exists and is older than the threshold: an issue without
  such an event is not closeable, and neither is one whose last such event is exactly at
  the threshold.
\<close>

theorem closeable_iff_last_labeled_older:
  assumes items: "items = take 30 (search_index w
          (''repo:'' @ owner (config_repo cfg) @ ''/'' @ repo (config_repo cfg)
             @ '' is:issue is:open label:\"'' @ responseRequiredLabel cfg @ ''\"'')
          ''updated'' ''asc'')"
      and hits: "\<forall>n\<in>set items.
          \<exists>ri. issues w \<lparr>issue_number = n, issue_owner = owner (config_repo cfg),
                           issue_repo = repo (config_repo cfg)\<rparr> = Some ri
              \<and> (\<forall>e\<in>set (events ri). valid_time (created_at e))"
      and thr: "valid_time (now - daysUntilClose cfg * 86400000)"
  shows "fst (getCloseableIssues cfg now w) =
           Inr (filter
                 (\<lambda>n. \<exists>ri. issues w \<lparr>issue_number = n, issue_owner = owner (config_repo cfg),
                                        issue_repo = repo (config_repo cfg)\<rparr> = Some ri
                    \<and> (\<exists>k<length (events ri).
                          event (events ri ! k) = ''labeled''
                        \<and> label_name (events ri ! k) = responseRequiredLabel cfg
                        \<and> (\<forall>j<length (events ri). k < j \<longrightarrow>
                              \<not> (event (events ri ! j) = ''labeled''
                                 \<and> label_name (events ri ! j) = responseRequiredLabel cfg))
                        \<and> created_at (events ri ! k) < now - daysUntilClose cfg * 86400000))
                 items)"
proof -
  let ?q = "''repo:'' @ owner (config_repo cfg) @ ''/'' @ repo (config_repo cfg)
             @ '' is:issue is:open label:\"'' @ responseRequiredLabel cfg @ ''\"''"
  let ?w1 = "receive (SearchIssuesAndPullRequests ?q ''updated'' ''asc'' 30) w"
  let ?i = "\<lambda>n. \<lparr>issue_number = n, issue_owner = owner (config_repo cfg),
                   issue_repo = repo (config_repo cfg)\<rparr>"
  let ?Q = "\<lambda>ri. \<exists>k<length (events ri).
                          event (events ri ! k) = ''labeled''
                        \<and> label_name (events ri ! k) = responseRequiredLabel cfg
                        \<and> (\<forall>j<length (events ri). k < j \<longrightarrow>
                              \<not> (event (events ri ! j) = ''labeled''
                                 \<and> label_name (events ri ! j) = responseRequiredLabel cfg))
                        \<and> created_at (events ri ! k) < now - daysUntilClose cfg * 86400000"
  let ?P = "\<lambda>n. \<exists>ri. issues w (?i n) = Some ri \<and> ?Q ri"
  have "fst (closeable cfg (since now (daysUntilClose cfg)) n ?w1) = Inr (?P n)"
    if "n \<in> set items" for n
  proof -
    from hits that obtain ri where ri: "issues w (?i n) = Some ri"
      and times: "\<forall>e\<in>set (events ri). valid_time (created_at e)"
      by blast
    have ri1: "issues ?w1 (?i n) = Some ri" using ri by (simp add: receive_simps)
    have "fst (closeable cfg (since now (daysUntilClose cfg)) n ?w1) = Inr (?Q ri)"
      using ri1 times thr by (rule closeable_last_labeled)
    moreover have "?P n \<longleftrightarrow> ?Q ri" using ri by simp
    ultimately show ?thesis by simp
  qed
  then have "\<forall>n\<in>set items. fst (closeable cfg (since now (daysUntilClose cfg)) n ?w1) = Inr (?P n)"
    by blast
  then have "fst (filter_closeable cfg (since now (daysUntilClose cfg)) items ?w1)
               = Inr (filter ?P items)"
    by (rule filter_closeable_ok)
  then show ?thesis
    unfolding getCloseableIssues_eq items .
qed

text \<open>
  The label applied at \<open>T0 = 1700000000000\<close> with 14 days until close: issue 7 is
  returned at \<open>T0 + 15d\<close>, and not at \<open>T0 + 14d\<close> exactly, nor at \<open>T0 + 13d\<close>.
\<close>

theorem closeable_iff_last_labeled_older_witness:
  "fst (getCloseableIssues example_cfg 1701296000000 example_remote) = Inr [7]
   \<and> fst (getCloseableIssues example_cfg 1701209600000 example_remote) = Inr []
   \<and> fst (getCloseableIssues example_cfg 1701123200000 example_remote) = Inr []"
proof -
  have d: "daysUntilClose example_cfg = 14" and l: "responseRequiredLabel example_cfg = ''needs-info''"
    by (simp_all add: example_cfg_def)
  have ev: "events example_info
              = [\<lparr>created_at = 1700000000000, event = ''labeled'', label_name = ''needs-info''\<rparr>]"
    by (simp add: example_info_def)
  have items: "[7] = take 30 (search_index example_remote
          (''repo:'' @ owner (config_repo example_cfg) @ ''/'' @ repo (config_repo example_cfg)
             @ '' is:issue is:open label:\"'' @ responseRequiredLabel example_cfg @ ''\"'')
          ''updated'' ''asc'')"
    by (simp add: example_remote_def)
  have hits: "\<forall>n\<in>set [7].
          \<exists>ri. issues example_remote
                 \<lparr>issue_number = n, issue_owner = owner (config_repo example_cfg),
                    issue_repo = repo (config_repo example_cfg)\<rparr> = Some ri
              \<and> (\<forall>e\<in>set (events ri). valid_time (created_at e))"
    using example_issue_lookup example_times by simp
  have v15: "valid_time (1701296000000 - daysUntilClose example_cfg * 86400000)"
    and v14: "valid_time (1701209600000 - daysUntilClose example_cfg * 86400000)"
    and v13: "valid_time (1701123200000 - daysUntilClose example_cfg * 86400000)"
    by (simp_all add: d valid_time_def)
  show ?thesis
    using closeable_iff_last_labeled_older [OF items hits v15]
      closeable_iff_last_labeled_older [OF items hits v14]
      closeable_iff_last_labeled_older [OF items hits v13]
    by (simp add: example_issue_lookup d l ev)
qed

text \<open>
  C6. With the histories of the issues unchanged, an issue that the filter of
  \<open>getCloseableIssues\<close> finds closeable at the time \<open>now\<close> is found closeable at every later
  time \<open>now'\<close> whose threshold \<open>now' - daysUntilClose * 24h\<close> is a valid time value, as it
  is for every clock reading when the number of days is not negative.
\<close>

theorem closeable_monotone:
  assumes c: "fst (closeable cfg (since now (daysUntilClose cfg)) n w) = Inr True"
      and later: "now < now'"
      and v: "valid_time (now' - daysUntilClose cfg * 86400000)"
      and same: "issues w' = issues w"
  shows "fst (closeable cfg (since now' (daysUntilClose cfg)) n w') = Inr True"
proof -
  let ?i = "\<lparr>issue_number = n, issue_owner = owner (config_repo cfg),
                     issue_repo = repo (config_repo cfg)\<rparr>"
  let ?ttl = "daysUntilClose cfg * 86400000"
  obtain ri where ri: "issues w ?i = Some ri"
    using c closeable_None [of w n cfg] by (cases "issues w ?i") auto
  then have ri': "issues w' ?i = Some ri" using same by simp
  let ?f = "find (\<lambda>ev. event ev = ''labeled'' \<and> label_name ev = responseRequiredLabel cfg)
                  (rev (events ri))"
  from c obtain e th where e: "?f = Some e" "valid_time (created_at e)"
    and th: "since now (daysUntilClose cfg) = Some th" "created_at e < th"
    by (auto simp add: closeable_Some [OF ri] split: option.splits if_splits)
  have th_eq: "th = now - ?ttl"
    using th(1) by (auto simp only: since_eq split: if_splits)
  have "since now' (daysUntilClose cfg) = Some (now' - ?ttl)"
    using v by (rule since_valid)
  moreover have "created_at e < now' - ?ttl"
    using th(2) th_eq later by simp
  ultimately show ?thesis
    using e by (simp add: closeable_Some [OF ri'])
qed

text \<open>The example issue is closeable at \<open>T0 + 15d\<close> and still at \<open>T0 + 16d\<close>.\<close>

theorem closeable_monotone_witness:
  "fst (closeable example_cfg (since 1701296000000 (daysUntilClose example_cfg)) 7 example_remote)
     = Inr True
   \<and> (1701296000000::int) < 1701382400000
   \<and> fst (closeable example_cfg (since 1701382400000 (daysUntilClose example_cfg)) 7
           (example_remote\<lparr>requests := [GetIssue example_issue]\<rparr>))
     = Inr True"
proof -
  have d: "daysUntilClose example_cfg = 14" and l: "responseRequiredLabel example_cfg = ''needs-info''"
    by (simp_all add: example_cfg_def)
  have ev: "events example_info
              = [\<lparr>created_at = 1700000000000, event = ''labeled'', label_name = ''needs-info''\<rparr>]"
    by (simp add: example_info_def)
  have c: "fst (closeable example_cfg (since 1701296000000 (daysUntilClose example_cfg)) 7 example_remote)
     = Inr True"
    by (simp add: closeable_Some [OF example_issue_lookup] since_eq d l ev valid_time_def)
  have lt: "(1701296000000::int) < 1701382400000" by simp
  have v: "valid_time (1701382400000 - daysUntilClose example_cfg * 86400000)"
    by (simp add: d valid_time_def)
  have same: "issues (example_remote\<lparr>requests := [GetIssue example_issue]\<rparr>) = issues example_remote"
    by simp
  from closeable_monotone [OF c lt v same] c lt show ?thesis by simp
qed

section \<open>\<open>sweep\<close>\<close>

text \<open>
  \<open>close_start\<close> followed by \<open>close_resume\<close> is \<open>close\<close>.
\<close>

lemma close_split:
  "close cfg i w = (case close_start cfg i w of (r, w1) \<Rightarrow> close_resume cfg i r w1)"
  by (simp add: close_def close_start_def close_resume_def split: prod.splits sum.splits)

lemma close_start_requests:
  "\<exists>x. requests (snd (close_start cfg i w)) = requests w @ [x] \<and> closes {i} x"
  by (simp add: close_start_def requests_snd_createComment requests_snd_updateIssue closes_def)

lemma close_resume_requests:
  "\<exists>xs. requests (snd (close_resume cfg i r w)) = requests w @ xs \<and> (\<forall>x\<in>set xs. closes {i} x)"
proof (cases "truthy (closeComment cfg) \<and> (\<exists>u. r = Inr u)")
  case True
  then have "requests (snd (close_resume cfg i r w))
               = requests w @ [UpdateIssue i ''closed'' (Some ''inactivity'')]"
    by (auto simp add: close_resume_def requests_snd_updateIssue)
  then show ?thesis by (simp add: closes_def)
next
  case False
  then have "requests (snd (close_resume cfg i r w)) = requests w @ []"
    by (cases r) (auto simp add: close_resume_def)
  then show ?thesis by (intro exI [of _ "[]"]) simp
qed

lemma closes_mono: "closes I x \<Longrightarrow> I \<subseteq> J \<Longrightarrow> closes J x"
  by (auto simp add: closes_def split: request.splits)

lemma start_closes_requests:
  "\<exists>xs. requests (snd (start_closes cfg is w)) = requests w @ xs
        \<and> (\<forall>x\<in>set xs. closes (set is) x)"
proof (induction "is" arbitrary: w)
  case Nil
  then show ?case by simp
next
  case (Cons i rest)
  obtain r w1 where c: "close_start cfg i w = (r, w1)" by (cases "close_start cfg i w")
  from close_start_requests [of cfg i w] c obtain x where
    x: "requests w1 = requests w @ [x]" "closes {i} x" by auto
  from Cons.IH [of w1] obtain xs where
    xs: "requests (snd (start_closes cfg rest w1)) = requests w1 @ xs"
    "\<forall>x\<in>set xs. closes (set rest) x" by blast
  obtain ps w2 where s: "start_closes cfg rest w1 = (ps, w2)"
    by (cases "start_closes cfg rest w1")
  have "requests (snd (start_closes cfg (i # rest) w)) = requests w @ (x # xs)"
    using c s x(1) xs(1) by simp
  moreover have "\<forall>y\<in>set (x # xs). closes (set (i # rest)) y"
    using x(2) xs(2) by (auto intro: closes_mono)
  ultimately show ?case by blast
qed

lemma start_closes_pending: "map fst (fst (start_closes cfg is w)) = is"
proof (induction "is" arbitrary: w)
  case Nil
  then show ?case by simp
next
  case (Cons i rest)
  obtain r w1 where c: "close_start cfg i w = (r, w1)" by (cases "close_start cfg i w")
  obtain ps w2 where s: "start_closes cfg rest w1 = (ps, w2)"
    by (cases "start_closes cfg rest w1")
  have "map fst ps = rest" using Cons.IH [of w1] s by simp
  then show ?case using c s by simp
qed

lemma resume_closes_requests:
  "\<exists>xs. requests (resume_closes cfg pending w) = requests w @ xs
        \<and> (\<forall>x\<in>set xs. closes (set (map fst pending)) x)"
proof (induction pending arbitrary: w)
  case Nil
  then show ?case by simp
next
  case (Cons p pending)
  obtain i r where p: "p = (i, r)" by (cases p)
  from close_resume_requests [of cfg i r w] obtain xs where
    xs: "requests (snd (close_resume cfg i r w)) = requests w @ xs"
    "\<forall>x\<in>set xs. closes {i} x" by blast
  from Cons.IH [of "snd (close_resume cfg i r w)"] obtain ys where
    ys: "requests (resume_closes cfg pending (snd (close_resume cfg i r w)))
           = requests (snd (close_resume cfg i r w)) @ ys"
    "\<forall>x\<in>set ys. closes (set (map fst pending)) x" by blast
  have "requests (resume_closes cfg (p # pending) w) = requests w @ (xs @ ys)"
    using p xs(1) ys(1) by simp
  moreover have "\<forall>x\<in>set (xs @ ys). closes (set (map fst (p # pending))) x"
    using p xs(2) ys(2) by (auto intro: closes_mono)
  ultimately show ?case by blast
qed

lemma filter_closeable_requests:
  "\<exists>xs. requests (snd (filter_closeable cfg d ns w)) = requests w @ xs
        \<and> (\<forall>x\<in>set xs. \<exists>n\<in>set ns. \<exists>pg. x =
              ListEvents \<lparr>issue_number = n, issue_owner = owner (config_repo cfg),
                          issue_repo = repo (config_repo cfg)\<rparr> 100 pg)"
proof (induction ns arbitrary: w)
  case Nil
  then show ?case by simp
next
  case (Cons n ns)
  let ?i = "\<lambda>n. \<lparr>issue_number = n, issue_owner = owner (config_repo cfg),
                   issue_repo = repo (config_repo cfg)\<rparr>"
  obtain r w1 where c: "closeable cfg d n w = (r, w1)" by (cases "closeable cfg d n w")
  from closeable_snd [of cfg d n w] c obtain pgs where
    w1: "requests w1 = requests w @ map (ListEvents (?i n) 100) pgs" by auto
  from Cons.IH [of w1] obtain xs where
    xs: "requests (snd (filter_closeable cfg d ns w1)) = requests w1 @ xs"
    "\<forall>x\<in>set xs. \<exists>m\<in>set ns. \<exists>pg. x = ListEvents (?i m) 100 pg" by blast
  have "snd (filter_closeable cfg d (n # ns) w) = snd (filter_closeable cfg d ns w1)"
    using c by (simp split: prod.splits sum.splits)
  then have "requests (snd (filter_closeable cfg d (n # ns) w))
               = requests w @ (map (ListEvents (?i n) 100) pgs @ xs)"
    using w1 xs(1) by simp
  moreover have "\<forall>x\<in>set (map (ListEvents (?i n) 100) pgs @ xs).
                   \<exists>m\<in>set (n # ns). \<exists>pg. x = ListEvents (?i m) 100 pg"
    using xs(2) by auto
  ultimately show ?case by blast
qed

lemma filter_closeable_subset:
  "fst (filter_closeable cfg d ns w) = Inr found \<Longrightarrow> set found \<subseteq> set ns"
proof (induction ns arbitrary: w found)
  case Nil
  then show ?case by simp
next
  case (Cons n ns)
  obtain r w1 where c: "closeable cfg d n w = (r, w1)" by (cases "closeable cfg d n w")
  obtain rs w2 where f: "filter_closeable cfg d ns w1 = (rs, w2)"
    by (cases "filter_closeable cfg d ns w1")
  from Cons.prems c f obtain keep rest where "rs = Inr rest"
    and found: "found = (if keep then n # rest else rest)"
    by (auto split: sum.splits)
  then have "set rest \<subseteq> set ns"
    using Cons.IH [of w1 rest] f by simp
  then show ?case using found by auto
qed

text \<open>
  C7. Among the requests of a run of \<open>sweep\<close> there is exactly one search, with the query
  \<open>repo:<owner>/<repo> is:issue is:open label:"<responseRequiredLabel>"\<close>, sorted by
  \<open>updated\<close> in the order \<open>asc\<close>, with a page size of 30. The run considers one page of at
  most 30 issues: every request that reads the events of an issue, comments on an issue or
  updates an issue is about one of the first 30 hits of that search, and the issues whose
  events are read are at most 30.
\<close>

theorem sweep_search_request:
  "filter is_search (sent w (snd (sweep cfg now w))) =
     [SearchIssuesAndPullRequests
        (''repo:'' @ owner (config_repo cfg) @ ''/'' @ repo (config_repo cfg)
           @ '' is:issue is:open label:\"'' @ responseRequiredLabel cfg @ ''\"'')
        ''updated'' ''asc'' 30]
   \<and> card {n. \<exists>i p pg. ListEvents i p pg \<in> set (sent w (snd (sweep cfg now w)))
                 \<and> issue_number i = n} \<le> 30
   \<and> (\<forall>i p pg. ListEvents i p pg \<in> set (sent w (snd (sweep cfg now w))) \<longrightarrow>
         issue_number i \<in> set (take 30 (search_index w
            (''repo:'' @ owner (config_repo cfg) @ ''/'' @ repo (config_repo cfg)
               @ '' is:issue is:open label:\"'' @ responseRequiredLabel cfg @ ''\"'')
            ''updated'' ''asc'')))
   \<and> (\<forall>i body. CreateComment i body \<in> set (sent w (snd (sweep cfg now w))) \<longrightarrow>
         issue_number i \<in> set (take 30 (search_index w
            (''repo:'' @ owner (config_repo cfg) @ ''/'' @ repo (config_repo cfg)
               @ '' is:issue is:open label:\"'' @ responseRequiredLabel cfg @ ''\"'')
            ''updated'' ''asc'')))
   \<and> (\<forall>i st reason. UpdateIssue i st reason \<in> set (sent w (snd (sweep cfg now w))) \<longrightarrow>
         issue_number i \<in> set (take 30 (search_index w
            (''repo:'' @ owner (config_repo cfg) @ ''/'' @ repo (config_repo cfg)
               @ '' is:issue is:open label:\"'' @ responseRequiredLabel cfg @ ''\"'')
            ''updated'' ''asc'')))"
proof -
  let ?q = "''repo:'' @ owner (config_repo cfg) @ ''/'' @ repo (config_repo cfg)
             @ '' is:issue is:open label:\"'' @ responseRequiredLabel cfg @ ''\"''"
  let ?S = "SearchIssuesAndPullRequests ?q ''updated'' ''asc'' 30"
  let ?i = "\<lambda>n. \<lparr>issue_number = n, issue_owner = owner (config_repo cfg),
                   issue_repo = repo (config_repo cfg)\<rparr>"
  let ?items = "take 30 (search_index w ?q ''updated'' ''asc'')"
  let ?sent = "sent w (snd (sweep cfg now w))"
  define w1 where "w1 = snd (ensureLabelExists cfg (responseRequiredLabel cfg) (responseRequiredColor cfg) w)"
  define E where "E = GetLabel (config_repo cfg) (responseRequiredLabel cfg)
       # (if repo_labels w (config_repo cfg, responseRequiredLabel cfg) = None
          then [CreateLabel (config_repo cfg) (responseRequiredLabel cfg) (responseRequiredColor cfg)]
          else [])"
  have e: "ensureLabelExists cfg (responseRequiredLabel cfg) (responseRequiredColor cfg) w = (Inr (), w1)"
    by (simp add: w1_def ensureLabelExists_eq)
  have w1_req: "requests w1 = requests w @ E"
    by (simp add: w1_def E_def ensureLabelExists_eq receive_simps)
  have w1_idx: "search_index w1 = search_index w"
    by (simp add: w1_def ensureLabelExists_eq receive_simps)
  have E: "\<forall>x\<in>set E. (\<exists>r n. x = GetLabel r n) \<or> (\<exists>r n c. x = CreateLabel r n c)"
    by (simp add: E_def)
  let ?w1s = "receive ?S w1"
  obtain r w2 where g: "getCloseableIssues cfg now w1 = (r, w2)"
    by (cases "getCloseableIssues cfg now w1")
  then have f: "filter_closeable cfg (since now (daysUntilClose cfg)) ?items ?w1s = (r, w2)"
    unfolding getCloseableIssues_eq w1_idx .
  from filter_closeable_requests [of cfg "since now (daysUntilClose cfg)" ?items ?w1s] f
  obtain L where w2_req: "requests w2 = requests w1 @ ?S # L"
    and L: "\<forall>x\<in>set L. \<exists>n\<in>set ?items. \<exists>pg. x = ListEvents (?i n) 100 pg"
    by (auto simp add: receive_simps)
  obtain C where C_req: "requests (snd (sweep cfg now w)) = requests w2 @ C"
    and C: "\<forall>x\<in>set C. closes (?i ` set ?items) x"
  proof (cases r)
    case (Inl err)
    then have "requests (snd (sweep cfg now w)) = requests w2 @ []"
      using e g by (simp add: sweep_def)
    then show ?thesis using that [of "[]"] by simp
  next
    case (Inr found)
    let ?is = "map ?i found"
    have sub: "set found \<subseteq> set ?items"
      using f Inr filter_closeable_subset [of cfg "since now (daysUntilClose cfg)" ?items ?w1s found]
      by simp
    obtain pending w3 where s: "start_closes cfg ?is w2 = (pending, w3)"
      by (cases "start_closes cfg ?is w2")
    have p: "map fst pending = ?is"
      using start_closes_pending [of cfg ?is w2] s by simp
    from start_closes_requests [of cfg ?is w2] s obtain xs where
      xs: "requests w3 = requests w2 @ xs" "\<forall>x\<in>set xs. closes (set ?is) x" by auto
    from resume_closes_requests [of cfg pending w3] p obtain ys where
      ys: "requests (resume_closes cfg pending w3) = requests w3 @ ys"
      "\<forall>x\<in>set ys. closes (set ?is) x" by auto
    have "snd (sweep cfg now w) = resume_closes cfg pending w3"
      using e g Inr s by (simp add: sweep_def)
    then have "requests (snd (sweep cfg now w)) = requests w2 @ (xs @ ys)"
      using xs(1) ys(1) by simp
    moreover have "set ?is \<subseteq> ?i ` set ?items" using sub by auto
    then have "\<forall>x\<in>set (xs @ ys). closes (?i ` set ?items) x"
      using xs(2) ys(2) by (auto intro: closes_mono)
    ultimately show ?thesis using that by blast
  qed
  have s: "?sent = E @ ?S # L @ C"
    by (rule sent_append) (simp add: C_req w2_req w1_req)
  have nE: "\<forall>x\<in>set E. \<not> is_search x" using E by (auto simp add: is_search_def)
  have nL: "\<forall>x\<in>set L. \<not> is_search x" using L by (auto simp add: is_search_def)
  have nC: "\<forall>x\<in>set C. \<not> is_search x"
    using C by (auto simp add: is_search_def closes_def split: request.splits)
  have a: "filter is_search ?sent = [?S]"
    unfolding s using nE nL nC by (simp add: filter_empty_conv is_search_def)
  have c: "issue_number i \<in> set ?items" if "ListEvents i p pg \<in> set ?sent" for i p pg
  proof -
    have "ListEvents i p pg \<notin> set E" using E by auto
    moreover have "ListEvents i p pg \<notin> set C" using C by (auto simp add: closes_def)
    ultimately have "ListEvents i p pg \<in> set L" using that unfolding s by auto
    then show ?thesis using L by auto
  qed
  have d: "issue_number i \<in> set ?items" if "CreateComment i body \<in> set ?sent" for i body
  proof -
    have "CreateComment i body \<notin> set E" using E by auto
    moreover have "CreateComment i body \<notin> set L" using L by auto
    ultimately have "CreateComment i body \<in> set C" using that unfolding s by auto
    then have "closes (?i ` set ?items) (CreateComment i body)" using C by blast
    then show ?thesis by (auto simp add: closes_def)
  qed
  have u: "issue_number i \<in> set ?items" if "UpdateIssue i st reason \<in> set ?sent" for i st reason
  proof -
    have "UpdateIssue i st reason \<notin> set E" using E by auto
    moreover have "UpdateIssue i st reason \<notin> set L" using L by auto
    ultimately have "UpdateIssue i st reason \<in> set C" using that unfolding s by auto
    then have "closes (?i ` set ?items) (UpdateIssue i st reason)" using C by blast
    then show ?thesis by (auto simp add: closes_def)
  qed
  have "{n. \<exists>i p pg. ListEvents i p pg \<in> set ?sent \<and> issue_number i = n} \<subseteq> set ?items"
    using c by auto
  then have "card {n. \<exists>i p pg. ListEvents i p pg \<in> set ?sent \<and> issue_number i = n}
               \<le> card (set ?items)"
    by (rule card_mono [OF finite_set])
  also have "\<dots> \<le> length ?items" by (rule card_length)
  also have "\<dots> \<le> 30" by simp
  finally have b: "card {n. \<exists>i p pg. ListEvents i p pg \<in> set ?sent \<and> issue_number i = n} \<le> 30" .
  from a b c d u show ?thesis by blast
qed

text \<open>
  A sweep over the example repository sends the search for \<open>needs-info\<close> in \<open>o/r\<close>,
  reads the events of issue 7, the only hit, and closes it.
\<close>

theorem sweep_search_request_witness:
  "filter is_search (sent example_remote (snd (sweep example_cfg 1701296000000 example_remote)))
     = [SearchIssuesAndPullRequests ''repo:o/r is:issue is:open label:\"needs-info\"''
          ''updated'' ''asc'' 30]
   \<and> ListEvents example_issue 100 1
        \<in> set (sent example_remote (snd (sweep example_cfg 1701296000000 example_remote)))
   \<and> UpdateIssue example_issue ''closed'' (Some ''inactivity'')
        \<in> set (sent example_remote (snd (sweep example_cfg 1701296000000 example_remote)))
   \<and> issue_number example_issue
        \<in> set (take 30 (search_index example_remote
              ''repo:o/r is:issue is:open label:\"needs-info\"'' ''updated'' ''asc''))"
proof -
  let ?q = "''repo:o/r is:issue is:open label:\"needs-info\"''"
  have q: "''repo:'' @ owner (config_repo example_cfg) @ ''/'' @ repo (config_repo example_cfg)
             @ '' is:issue is:open label:\"'' @ responseRequiredLabel example_cfg @ ''\"'' = ?q"
    by (simp add: example_cfg_def example_repo_def)
  have s: "ListEvents example_issue 100 1
        \<in> set (sent example_remote (snd (sweep example_cfg 1701296000000 example_remote)))"
    by code_simp
  have u: "UpdateIssue example_issue ''closed'' (Some ''inactivity'')
        \<in> set (sent example_remote (snd (sweep example_cfg 1701296000000 example_remote)))"
    by code_simp
  from sweep_search_request [of example_remote example_cfg 1701296000000, unfolded q] s u
  show ?thesis by blast
qed

end
